theory Spec2Isabelle
  imports Main "HOL-Library.AList"
begin

section \<open>Video-KYC session matching and signaling core (backend/main.py)\<close>

text \<open>
  A shallow embedding of the connection manager, the expiry timer, the start-session
  endpoint and the two WebSocket receive loops of \<^verbatim>\<open>backend/main.py\<close>.

  Conventions of the model:
  \<^item> \<^verbatim>\<open>datetime.now()\<close> is a parameter \<open>now\<close> of every operation that reads the clock;
  \<^item> a Python \<^verbatim>\<open>dict\<close> that the code iterates over is an association list in insertion
    order (\<open>AList.update\<close> keeps the position of an existing key and appends a new one, as
    Python does); a dict that is only looked up is a map;
  \<^item> \<^verbatim>\<open>websocket.send_json\<close> raises exactly when the socket is closed; every message that
    was really sent is appended to the log \<open>sent\<close>;
  \<^item> the relational store is a list of rows per table, and a query reads the rows as
    they are committed at that moment (no snapshot isolation of the database engine is
    modelled);
  \<^item> every handler has its own ORM session (\<^verbatim>\<open>db = SessionLocal()\<close>): the objects it has
    loaded and that are not expired. A handler reads and writes a session row through
    its object, see the subsection on the ORM session;
  \<^item> a \<^verbatim>\<open>datetime\<close> is an integer number of seconds, and the text \<^verbatim>\<open>isoformat()\<close> gives
    for it is stood for by that number;
  \<^item> a received envelope is a value of a datatype with typed fields (a session id is an
    integer), an outgoing message is the dictionary the code builds;
  \<^item> one pass of a receive loop, and one run of the timer body, is one step: the
    \<^verbatim>\<open>await\<close>s inside it are not points where another task runs;
  \<^item> the ping that a receive loop sends after 60 seconds of silence is not modelled; its
    two outcomes are that the loop goes on or that it ends, and the loop ending is an
    event of its own;
  \<^item> an operation that never returns (see \<open>broadcast_to_all_agents\<close>) has the value
    \<open>None\<close>.
\<close>

subsection \<open>Python's \<^verbatim>\<open>str(int)\<close>, \<^verbatim>\<open>str.isdigit\<close> and \<^verbatim>\<open>int(str)\<close>\<close>

text \<open>
  The connection of a customer is keyed by \<^verbatim>\<open>str(session_id)\<close>, and \<^verbatim>\<open>disconnect_user\<close>
  reads the integer back with \<^verbatim>\<open>isdigit\<close> and \<^verbatim>\<open>int\<close>. Every key the program makes is the
  decimal text of an integer, so \<open>isdigit\<close> is given for the ASCII digits.
\<close>

definition digit_char :: "nat \<Rightarrow> char" where
  "digit_char d = char_of (48 + d)"

fun str_nat :: "nat \<Rightarrow> string" where
  "str_nat n = (if n < 10 then [digit_char n] else str_nat (n div 10) @ [digit_char (n mod 10)])"

declare str_nat.simps [simp del]

definition str_int :: "int \<Rightarrow> string" where
  "str_int n = (if n < 0 then CHR ''-'' # str_nat (nat (- n)) else str_nat (nat n))"

definition is_digit_char :: "char \<Rightarrow> bool" where
  "is_digit_char c = (48 \<le> (of_char c :: nat) \<and> (of_char c :: nat) \<le> 57)"

definition isdigit :: "string \<Rightarrow> bool" where
  "isdigit s = (s \<noteq> [] \<and> list_all is_digit_char s)"

definition int_str :: "string \<Rightarrow> int" where
  "int_str s = foldl (\<lambda>acc c. 10 * acc + (int (of_char c) - 48)) 0 s"

definition upper_char :: "char \<Rightarrow> char" where
  "upper_char c =
     (if 97 \<le> (of_char c :: nat) \<and> (of_char c :: nat) \<le> 122 then char_of ((of_char c :: nat) - 32) else c)"

definition upper :: "string \<Rightarrow> string" where
  "upper s = map upper_char s"

subsection \<open>Messages, transports and the recorder\<close>

type_synonym timestamp = int

datatype json = JNull | JBool bool | JInt int | JStr string
  | JList "json list" | JObj "(string \<times> json) list"

type_synonym message = "(string \<times> json) list"

datatype endpoint = ToUser string | ToAgent string

record websocket =
  ws_id :: nat
  ws_closed :: bool

record connection =
  websocket :: websocket
  last_heartbeat :: timestamp
  connected_at :: timestamp

text \<open>
  \<^verbatim>\<open>VideoRecorder\<close> (services/video\_service.py). Frames are added only by
  \<^verbatim>\<open>add_frame\<close>, which the backend never calls, so \<^verbatim>\<open>frames\<close> is the empty list on every
  path of this program and \<^verbatim>\<open>stop_recording\<close> returns \<^verbatim>\<open>None\<close> in both of its reachable
  branches; the field is kept to show which branch is taken.
\<close>

record video_recorder =
  rec_session_id :: string
  recording :: bool
  frames :: "nat list"
  start_time :: "timestamp option"

definition new_recorder :: "string \<Rightarrow> video_recorder" where
  "new_recorder session_id =
     \<lparr>rec_session_id = session_id, recording = False, frames = [], start_time = None\<rparr>"

definition start_recording :: "timestamp \<Rightarrow> video_recorder \<Rightarrow> video_recorder" where
  "start_recording now r = r\<lparr>recording := True, start_time := Some now, frames := []\<rparr>"

definition video_path_of :: "video_recorder \<Rightarrow> timestamp \<Rightarrow> string" where
  "video_path_of r now =
     ''recordings/vkyc_'' @ rec_session_id r @ ''_'' @ str_int now @ ''.mp4''"

definition stop_recording :: "timestamp \<Rightarrow> video_recorder \<Rightarrow> string option \<times> video_recorder" where
  "stop_recording now r =
     (if \<not> recording r then (None, r)
      else let r' = r\<lparr>recording := False\<rparr>
           in if frames r' = [] then (None, r') else (Some (video_path_of r' now), r'))"

subsection \<open>The record store (models.py)\<close>

record customer =
  cust_id :: int
  cust_unique_id :: string
  cust_name :: string
  cust_mobile :: string

record agent =
  agent_pk :: int
  employee_id :: string
  first_name :: string
  last_name :: string

record vkyc_session =
  sess_id :: int
  customer_id :: int
  agent_id :: "int option"
  unique_id :: string
  status :: string
  scheduled_time :: "timestamp option"
  started_at :: "timestamp option"
  agent_assigned_at :: "timestamp option"
  completed_at :: "timestamp option"
  video_path :: "string option"
  error_message :: "string option"

record vkyc_log =
  log_session_id :: int
  log_type :: string
  log_data :: json

subsection \<open>The state: ConnectionManager, store, transport log, timers\<close>

text \<open>
  The first six fields are the fields of \<^verbatim>\<open>ConnectionManager\<close>. \<open>timers\<close> holds the
  expiry timers created with \<^verbatim>\<open>asyncio.create_task(session_expiry_timer(...))\<close> as pairs of
  session id and due time.
\<close>

record state =
  active_connections :: "(string \<times> connection) list"
  agent_connections :: "(string \<times> connection) list"
  agent_sessions :: "string \<rightharpoonup> int"
  session_agents :: "int \<rightharpoonup> string"
  waiting_sessions :: "int set"
  recordings :: "string \<rightharpoonup> video_recorder"
  customers :: "customer list"
  agents :: "agent list"
  vkyc_sessions :: "vkyc_session list"
  vkyc_logs :: "vkyc_log list"
  sent :: "(endpoint \<times> message) list"
  timers :: "(int \<times> timestamp) list"

definition initial :: "customer list \<Rightarrow> agent list \<Rightarrow> state" where
  "initial cs ags =
     \<lparr>active_connections = [], agent_connections = [], agent_sessions = Map.empty,
      session_agents = Map.empty, waiting_sessions = {}, recordings = Map.empty,
      customers = cs, agents = ags, vkyc_sessions = [], vkyc_logs = [], sent = [],
      timers = []\<rparr>"

subsection \<open>ConnectionManager\<close>

definition connect_user :: "timestamp \<Rightarrow> websocket \<Rightarrow> string \<Rightarrow> state \<Rightarrow> state" where
  "connect_user now ws session_id st =
     st\<lparr>active_connections :=
          AList.update session_id
            \<lparr>websocket = ws, last_heartbeat = now, connected_at = now\<rparr> (active_connections st),
        recordings := (recordings st)(session_id \<mapsto> new_recorder session_id)\<rparr>"

definition connect_agent :: "timestamp \<Rightarrow> websocket \<Rightarrow> string \<Rightarrow> state \<Rightarrow> state" where
  "connect_agent now ws eid st =
     st\<lparr>agent_connections :=
          AList.update eid
            \<lparr>websocket = ws, last_heartbeat = now, connected_at = now\<rparr> (agent_connections st)\<rparr>"

text \<open>
  \<^verbatim>\<open>disconnect_user\<close>: the removal from the waiting set is commented out in the source.
  \<^verbatim>\<open>if session_id_int and ...\<close> is false for the integer 0.
\<close>

definition disconnect_user :: "string \<Rightarrow> state \<Rightarrow> state" where
  "disconnect_user session_id st =
     (let st1 = st\<lparr>active_connections := AList.delete session_id (active_connections st)\<rparr>;
          st2 = st1\<lparr>recordings := (recordings st1)(session_id := None)\<rparr>;
          session_id_int = (if isdigit session_id then Some (int_str session_id) else None)
      in case session_id_int of
           None \<Rightarrow> st2
         | Some n \<Rightarrow>
             (if n \<noteq> 0 then
                (case session_agents st2 n of
                   None \<Rightarrow> st2
                 | Some a \<Rightarrow>
                     st2\<lparr>agent_sessions := (agent_sessions st2)(a := None),
                         session_agents := (session_agents st2)(n := None)\<rparr>)
              else st2))"

definition disconnect_agent :: "string \<Rightarrow> state \<Rightarrow> state" where
  "disconnect_agent eid st =
     (let st1 = st\<lparr>agent_connections := AList.delete eid (agent_connections st)\<rparr>
      in case agent_sessions st1 eid of
           None \<Rightarrow> st1
         | Some sid \<Rightarrow>
             st1\<lparr>session_agents := (session_agents st1)(sid := None),
                 agent_sessions := (agent_sessions st1)(eid := None)\<rparr>)"

definition send_to_user :: "timestamp \<Rightarrow> message \<Rightarrow> string \<Rightarrow> state \<Rightarrow> bool \<times> state" where
  "send_to_user now msg session_id st =
     (case map_of (active_connections st) session_id of
        None \<Rightarrow> (False, st)
      | Some c \<Rightarrow>
          if ws_closed (websocket c) then (False, disconnect_user session_id st)
          else (True,
                st\<lparr>sent := sent st @ [(ToUser session_id, msg)],
                   active_connections :=
                     AList.update session_id (c\<lparr>last_heartbeat := now\<rparr>) (active_connections st)\<rparr>))"

definition send_to_agent :: "timestamp \<Rightarrow> message \<Rightarrow> string \<Rightarrow> state \<Rightarrow> bool \<times> state" where
  "send_to_agent now msg eid st =
     (case map_of (agent_connections st) eid of
        None \<Rightarrow> (False, st)
      | Some c \<Rightarrow>
          if ws_closed (websocket c) then (False, disconnect_agent eid st)
          else (True,
                st\<lparr>sent := sent st @ [(ToAgent eid, msg)],
                   agent_connections :=
                     AList.update eid (c\<lparr>last_heartbeat := now\<rparr>) (agent_connections st)\<rparr>))"

text \<open>
  \<^verbatim>\<open>broadcast_to_all_agents\<close> sends inside \<^verbatim>\<open>async with self.lock\<close> and, still inside it,
  awaits \<^verbatim>\<open>disconnect_agent\<close> for every agent whose send failed. \<^verbatim>\<open>disconnect_agent\<close>
  acquires the same lock, and \<^verbatim>\<open>asyncio.Lock\<close> is not reentrant: with one failed send the
  call never returns. That outcome is \<open>None\<close>.
\<close>

definition broadcast_send :: "timestamp \<Rightarrow> message \<Rightarrow> string \<times> connection \<Rightarrow> state \<Rightarrow> state" where
  "broadcast_send now msg p st =
     (if ws_closed (websocket (snd p)) then st
      else st\<lparr>sent := sent st @ [(ToAgent (fst p), msg)],
              agent_connections :=
                AList.update (fst p) ((snd p)\<lparr>last_heartbeat := now\<rparr>) (agent_connections st)\<rparr>)"

definition broadcast_to_all_agents :: "timestamp \<Rightarrow> message \<Rightarrow> state \<Rightarrow> state option" where
  "broadcast_to_all_agents now msg st =
     (let disconnected_agents = filter (\<lambda>p. ws_closed (websocket (snd p))) (agent_connections st);
          st' = fold (broadcast_send now msg) (agent_connections st) st
      in if disconnected_agents = [] then Some st' else None)"

definition add_waiting_session :: "int \<Rightarrow> state \<Rightarrow> bool \<times> state" where
  "add_waiting_session sid st =
     (if sid \<in> waiting_sessions st then (False, st)
      else (True, st\<lparr>waiting_sessions := insert sid (waiting_sessions st)\<rparr>))"

definition assign_agent_to_session :: "string \<Rightarrow> int \<Rightarrow> state \<Rightarrow> bool \<times> state" where
  "assign_agent_to_session eid sid st =
     (if agent_sessions st eid \<noteq> None then (False, st)
      else if session_agents st sid \<noteq> None then (False, st)
      else (True,
            st\<lparr>agent_sessions := (agent_sessions st)(eid \<mapsto> sid),
               session_agents := (session_agents st)(sid \<mapsto> eid),
               waiting_sessions := waiting_sessions st - {sid}\<rparr>))"

definition get_available_agent :: "state \<Rightarrow> string option" where
  "get_available_agent st =
     map_option fst (find (\<lambda>p. agent_sessions st (fst p) = None) (agent_connections st))"

definition cleanup_stale_connections :: "timestamp \<Rightarrow> int \<Rightarrow> state \<Rightarrow> state" where
  "cleanup_stale_connections now timeout_seconds st =
     (let stale_users =
            map fst (filter (\<lambda>p. now - last_heartbeat (snd p) > timeout_seconds) (active_connections st));
          stale_agents =
            map fst (filter (\<lambda>p. now - last_heartbeat (snd p) > timeout_seconds) (agent_connections st))
      in fold disconnect_agent stale_agents (fold disconnect_user stale_users st))"

subsection \<open>Queries on the store\<close>

definition get_session :: "int \<Rightarrow> state \<Rightarrow> vkyc_session option" where
  "get_session sid st = find (\<lambda>r. sess_id r = sid) (vkyc_sessions st)"

definition update_session :: "int \<Rightarrow> (vkyc_session \<Rightarrow> vkyc_session) \<Rightarrow> state \<Rightarrow> state" where
  "update_session sid f st =
     st\<lparr>vkyc_sessions := map (\<lambda>r. if sess_id r = sid then f r else r) (vkyc_sessions st)\<rparr>"

definition get_customer :: "int \<Rightarrow> state \<Rightarrow> customer option" where
  "get_customer cid st = find (\<lambda>c. cust_id c = cid) (customers st)"

definition customer_name :: "customer option \<Rightarrow> json" where
  "customer_name c = (case c of None \<Rightarrow> JStr ''Unknown'' | Some x \<Rightarrow> JStr (cust_name x))"

definition customer_mobile :: "customer option \<Rightarrow> json" where
  "customer_mobile c = (case c of None \<Rightarrow> JStr [] | Some x \<Rightarrow> JStr (cust_mobile x))"

text \<open>\<^verbatim>\<open>.order_by(VKYCSession.id.desc()).first()\<close>: the row with the largest id, if any.\<close>

fun first_by_id_desc :: "vkyc_session list \<Rightarrow> vkyc_session option" where
  "first_by_id_desc [] = None"
| "first_by_id_desc (r # rs) =
     (case first_by_id_desc rs of
        None \<Rightarrow> Some r
      | Some r' \<Rightarrow> if sess_id r < sess_id r' then Some r' else Some r)"

text \<open>
  The primary key of a new row is given by the store (an auto-increment column, which is
  not code of this repository): one more than the largest key in the table, 1 for the
  first row.
\<close>

definition next_session_id :: "state \<Rightarrow> int" where
  "next_session_id st = fold max (map sess_id (vkyc_sessions st)) 0 + 1"

subsection \<open>The ORM session of a handler\<close>

text \<open>
  \<^verbatim>\<open>SessionLocal\<close> is a \<^verbatim>\<open>sessionmaker(autocommit=False, autoflush=False)\<close> with the
  default \<^verbatim>\<open>expire_on_commit\<close>. Of such an ORM session the model keeps the identity map of
  the \<^verbatim>\<open>VKYCSession\<close> objects that are loaded and not expired, with the column values they
  were loaded with:
  \<^item> a query by id returns the loaded object as it is when there is one, and loads the row
    otherwise (\<open>query_session\<close>);
  \<^item> reading an attribute of an expired object loads the row first (\<open>refresh\<close>);
  \<^item> \<^verbatim>\<open>db.commit()\<close> after assignments to an object writes, with one \<^verbatim>\<open>UPDATE\<close> of the row
    with the object's key, the assigned columns whose new value differs from the loaded
    one, and every assigned column when the object is expired; then it expires all
    objects (\<open>commit_session\<close>).
  The customer and agent tables are never written by the handlers, so their objects are
  read from the store. The identity map refers to its objects weakly: the handlers keep
  the objects they use in local variables (\<^verbatim>\<open>session\<close>, \<^verbatim>\<open>waiting_sessions\<close>), and the
  model keeps every loaded object until the next commit of its ORM session. The
  properties of a handler below are stated for every identity map.
\<close>

type_synonym identity_map = "int \<rightharpoonup> vkyc_session"

datatype assignment =
    SetStatus string
  | SetAgentId "int option"
  | SetStartedAt "timestamp option"
  | SetAgentAssignedAt "timestamp option"
  | SetCompletedAt "timestamp option"
  | SetVideoPath "string option"
  | SetErrorMessage "string option"

fun assign_column :: "assignment \<Rightarrow> vkyc_session \<Rightarrow> vkyc_session" where
  "assign_column (SetStatus v) r = r\<lparr>status := v\<rparr>"
| "assign_column (SetAgentId v) r = r\<lparr>agent_id := v\<rparr>"
| "assign_column (SetStartedAt v) r = r\<lparr>started_at := v\<rparr>"
| "assign_column (SetAgentAssignedAt v) r = r\<lparr>agent_assigned_at := v\<rparr>"
| "assign_column (SetCompletedAt v) r = r\<lparr>completed_at := v\<rparr>"
| "assign_column (SetVideoPath v) r = r\<lparr>video_path := v\<rparr>"
| "assign_column (SetErrorMessage v) r = r\<lparr>error_message := v\<rparr>"

fun differs_from :: "vkyc_session \<Rightarrow> assignment \<Rightarrow> bool" where
  "differs_from obj (SetStatus v) = (status obj \<noteq> v)"
| "differs_from obj (SetAgentId v) = (agent_id obj \<noteq> v)"
| "differs_from obj (SetStartedAt v) = (started_at obj \<noteq> v)"
| "differs_from obj (SetAgentAssignedAt v) = (agent_assigned_at obj \<noteq> v)"
| "differs_from obj (SetCompletedAt v) = (completed_at obj \<noteq> v)"
| "differs_from obj (SetVideoPath v) = (video_path obj \<noteq> v)"
| "differs_from obj (SetErrorMessage v) = (error_message obj \<noteq> v)"

definition net_change :: "vkyc_session option \<Rightarrow> assignment \<Rightarrow> bool" where
  "net_change loaded a = (case loaded of None \<Rightarrow> True | Some obj \<Rightarrow> differs_from obj a)"

definition flush :: "vkyc_session option \<Rightarrow> assignment list \<Rightarrow> vkyc_session \<Rightarrow> vkyc_session" where
  "flush loaded assigns row = fold assign_column (filter (net_change loaded) assigns) row"

definition commit_session :: "int \<Rightarrow> assignment list \<Rightarrow> identity_map \<Rightarrow> state \<Rightarrow> identity_map \<times> state" where
  "commit_session sid assigns im st = (Map.empty, update_session sid (flush (im sid) assigns) st)"

definition query_session :: "int \<Rightarrow> identity_map \<Rightarrow> state \<Rightarrow> vkyc_session option \<times> identity_map" where
  "query_session sid im st =
     (case get_session sid st of
        None \<Rightarrow> (None, im)
      | Some row \<Rightarrow>
          (case im sid of
             Some obj \<Rightarrow> (Some obj, im)
           | None \<Rightarrow> (Some row, im(sid \<mapsto> row))))"

definition refresh :: "int \<Rightarrow> identity_map \<Rightarrow> state \<Rightarrow> identity_map" where
  "refresh sid im st =
     (case im sid of
        Some obj \<Rightarrow> im
      | None \<Rightarrow> (case get_session sid st of None \<Rightarrow> im | Some row \<Rightarrow> im(sid \<mapsto> row)))"

subsection \<open>The expiry timer\<close>

text \<open>
  The body of \<^verbatim>\<open>session_expiry_timer\<close> after its \<^verbatim>\<open>asyncio.sleep\<close>. It opens an ORM
  session of its own, so the object it reads is the row; the status it assigns differs
  from the one it has just read, so the row is written.
\<close>

definition session_expiry_timer :: "timestamp \<Rightarrow> int \<Rightarrow> state \<Rightarrow> state option" where
  "session_expiry_timer now sid st =
     (case get_session sid st of
        None \<Rightarrow> Some st
      | Some session \<Rightarrow>
          if status session \<in> set [''waiting_for_agent'', ''in_progress''] then
            (let st1 = update_session sid (\<lambda>r. r\<lparr>status := ''expired''\<rparr>) st;
                 st2 = snd (send_to_user now
                         [(''type'', JStr ''session_expired''),
                          (''message'', JStr ''Session expired. Please retry.'')]
                         (str_int sid) st1)
             in case broadcast_to_all_agents now
                       [(''type'', JStr ''session_expired''), (''session_id'', JInt sid)] st2 of
                  None \<Rightarrow> None
                | Some st3 \<Rightarrow> Some (disconnect_user (str_int sid) st3))
          else Some st)"

subsection \<open>POST /api/vkyc/start\<close>

datatype http_error = HTTPException int string

definition start_vkyc :: "timestamp \<Rightarrow> string \<Rightarrow> state \<Rightarrow> (http_error + int) \<times> state" where
  "start_vkyc now uid st =
     (case find (\<lambda>c. cust_unique_id c = uid) (customers st) of
        None \<Rightarrow> (Inl (HTTPException 404 ''Customer not found''), st)
      | Some customer \<Rightarrow>
          (case first_by_id_desc
                  (filter (\<lambda>r. customer_id r = cust_id customer \<and>
                                status r \<in> set [''started'', ''waiting_for_agent'',
                                                ''in_progress'', ''disconnected''])
                     (vkyc_sessions st)) of
             Some existing_session \<Rightarrow> (Inr (sess_id existing_session), st)
           | None \<Rightarrow>
               (let session =
                      \<lparr>sess_id = next_session_id st, customer_id = cust_id customer,
                       agent_id = None, unique_id = uid, status = ''started'',
                       scheduled_time = None, started_at = Some now,
                       agent_assigned_at = None, completed_at = None, video_path = None,
                       error_message = None\<rparr>
                in (Inr (sess_id session),
                    st\<lparr>vkyc_sessions := vkyc_sessions st @ [session]\<rparr>))))"

subsection \<open>Messages received on the two WebSockets\<close>

text \<open>
  The envelopes \<^verbatim>\<open>{type, ...fields}\<close> that the two receive loops dispatch on. Both loops
  ignore a type they have no branch for. The branches that call the OCR and DigiLocker
  services (\<^verbatim>\<open>document_captured\<close>, \<^verbatim>\<open>pan_detected\<close>, \<^verbatim>\<open>aadhaar_detected\<close>,
  \<^verbatim>\<open>verify_digilocker\<close>) are not modelled: they write a log row, commit and send the
  service's result, as the logging branches that are modelled do, and touch neither
  the session status nor the manager's maps except through \<^verbatim>\<open>send_to_user\<close> and
  \<^verbatim>\<open>send_to_agent\<close>.
\<close>

datatype webrtc_kind = Offer | Answer | IceCandidate

fun webrtc_type :: "webrtc_kind \<Rightarrow> string" where
  "webrtc_type Offer = ''webrtc_offer''"
| "webrtc_type Answer = ''webrtc_answer''"
| "webrtc_type IceCandidate = ''webrtc_ice_candidate''"

datatype ws_message =
    Heartbeat
  | UserLeft
  | ReadyForAgent
  | PermissionsGranted
  | Webrtc webrtc_kind "int option" json
  | BiometricData json
  | LocationData json
  | IpAddress json
  | KycComplete
  | ErrorReport "string option"
  | AcceptSession int
  | DeclineSession int
  | RequestDocumentCapture int string
  | CancelDocumentCapture int
  | LeaveSession int
  | OtherType string

datatype control = Continue | Break

definition error_message_to_agent :: "string \<Rightarrow> message" where
  "error_message_to_agent text = [(''type'', JStr ''error''), (''message'', JStr text)]"

definition add_log :: "int \<Rightarrow> string \<Rightarrow> json \<Rightarrow> state \<Rightarrow> state" where
  "add_log sid ty d st =
     st\<lparr>vkyc_logs := vkyc_logs st @ [\<lparr>log_session_id = sid, log_type = ty, log_data = d\<rparr>]\<rparr>"

definition stop_recorder_of :: "timestamp \<Rightarrow> string \<Rightarrow> state \<Rightarrow> state" where
  "stop_recorder_of now key st =
     (case recordings st key of
        None \<Rightarrow> st
      | Some r \<Rightarrow> st\<lparr>recordings := (recordings st)(key \<mapsto> snd (stop_recording now r))\<rparr>)"

subsection \<open>The customer's receive loop (\<^verbatim>\<open>websocket_vkyc\<close>)\<close>

text \<open>
  The handlers of this loop read and write the row of their session through the object
  \<^verbatim>\<open>session\<close> of the loop's ORM session; \<open>im\<close> is that session's identity map before
  the pass, and the result carries the map after it.
\<close>

definition user_left :: "timestamp \<Rightarrow> int \<Rightarrow> identity_map \<Rightarrow> state \<Rightarrow> identity_map \<times> state" where
  "user_left now sid im st =
     (let c = commit_session sid [SetStatus ''disconnected''] im st;
          st1 = snd c;
          st2 = (case session_agents st1 sid of
                   None \<Rightarrow> st1
                 | Some a \<Rightarrow>
                     snd (send_to_agent now
                            [(''type'', JStr ''user_left''), (''session_id'', JInt sid),
                             (''message'', JStr ''User has left the VKYC session'')] a st1));
          st3 = stop_recorder_of now (str_int sid) st2
      in (fst c, disconnect_user (str_int sid) st3))"

definition new_waiting_session_message :: "vkyc_session \<Rightarrow> timestamp \<Rightarrow> state \<Rightarrow> message" where
  "new_waiting_session_message session started st =
     (let customer = get_customer (customer_id session) st
      in [(''type'', JStr ''new_waiting_session''),
          (''session_id'', JInt (sess_id session)),
          (''customer_id'', JInt (customer_id session)),
          (''unique_id'', JStr (unique_id session)),
          (''customer_name'', customer_name customer),
          (''customer_mobile'', customer_mobile customer),
          (''started_at'', JInt started)])"

text \<open>
  \<^verbatim>\<open>ready_for_agent\<close>. After the commit the object is expired; when the session was added
  to the waiting set, building the broadcast reads \<^verbatim>\<open>session.customer_id\<close> and so loads
  the row again. \<^verbatim>\<open>session.started_at.isoformat()\<close> raises on \<^verbatim>\<open>None\<close>; the exception
  ends the loop (\<open>Break\<close>).
\<close>

definition ready_for_agent ::
    "timestamp \<Rightarrow> int \<Rightarrow> identity_map \<Rightarrow> state \<Rightarrow> (control \<times> identity_map \<times> state) option" where
  "ready_for_agent now sid im st =
     (let c = commit_session sid [SetStatus ''waiting_for_agent'', SetStartedAt (Some now)] im st;
          added = fst (add_waiting_session sid (snd c));
          st2 = snd (add_waiting_session sid (snd c));
          im2 = (if added then refresh sid (fst c) st2 else fst c);
          notify_user =
            (\<lambda>st3. let st4 = snd (send_to_user now
                                      [(''type'', JStr ''waiting_for_agent''),
                                       (''message'', JStr ''Waiting for an available agent...'')]
                                      (str_int sid) st3)
                    in Some (Continue, im2, st4\<lparr>timers := timers st4 @ [(sid, now + 300)]\<rparr>))
      in if added then
           (case im2 sid of
              None \<Rightarrow> Some (Break, im2, st2)
            | Some session \<Rightarrow>
                (case started_at session of
                   None \<Rightarrow> Some (Break, im2, st2)
                 | Some started \<Rightarrow>
                     (case broadcast_to_all_agents now
                             (new_waiting_session_message session started st2) st2 of
                        None \<Rightarrow> None
                      | Some st3 \<Rightarrow> notify_user st3)))
         else notify_user st2)"

definition user_webrtc :: "timestamp \<Rightarrow> int \<Rightarrow> webrtc_kind \<Rightarrow> json \<Rightarrow> state \<Rightarrow> state" where
  "user_webrtc now sid k payload st =
     (case session_agents st sid of
        None \<Rightarrow> st
      | Some a \<Rightarrow>
          snd (send_to_agent now
                 [(''type'', JStr (webrtc_type k)), (''session_id'', JInt sid),
                  (''payload'', payload)] a st))"

definition kyc_complete :: "timestamp \<Rightarrow> int \<Rightarrow> identity_map \<Rightarrow> state \<Rightarrow> (identity_map \<times> state) option" where
  "kyc_complete now sid im st =
     (let video = (case recordings st (str_int sid) of
                     None \<Rightarrow> []
                   | Some r \<Rightarrow> [SetVideoPath (fst (stop_recording now r))]);
          c = commit_session sid
                ([SetStatus ''completed'', SetCompletedAt (Some now)] @ video) im
                (stop_recorder_of now (str_int sid) st);
          st3 = snd (send_to_user now
                       [(''type'', JStr ''kyc_completed''),
                        (''message'', JStr ''Your KYC is complete!'')] (str_int sid) (snd c));
          st4 = (case session_agents st3 sid of
                   None \<Rightarrow> st3
                 | Some a \<Rightarrow>
                     snd (send_to_agent now
                            [(''type'', JStr ''session_completed''), (''session_id'', JInt sid),
                             (''message'', JStr ''VKYC session completed successfully'')] a st3))
      in map_option (Pair (fst c))
           (broadcast_to_all_agents now
              [(''type'', JStr ''session_completed''), (''session_id'', JInt sid)] st4))"

definition error_report :: "int \<Rightarrow> string option \<Rightarrow> identity_map \<Rightarrow> state \<Rightarrow> identity_map \<times> state" where
  "error_report sid m im st =
     commit_session sid
       [SetStatus ''failed'',
        SetErrorMessage (Some (case m of None \<Rightarrow> ''Unknown error'' | Some t \<Rightarrow> t))] im st"

text \<open>
  One pass of the loop body of \<^verbatim>\<open>websocket_vkyc\<close> for a received message. The branches
  that only write a log row commit as well, which expires the objects of the loop.
\<close>

fun vkyc_message ::
    "timestamp \<Rightarrow> int \<Rightarrow> ws_message \<Rightarrow> identity_map \<Rightarrow> state \<Rightarrow> (control \<times> identity_map \<times> state) option" where
  "vkyc_message now sid Heartbeat im st = Some (Continue, im, st)"
| "vkyc_message now sid UserLeft im st = Some (Break, user_left now sid im st)"
| "vkyc_message now sid ReadyForAgent im st = ready_for_agent now sid im st"
| "vkyc_message now sid PermissionsGranted im st = Some (Continue, im, st)"
| "vkyc_message now sid (Webrtc k s payload) im st =
     Some (Continue, im, user_webrtc now sid k payload st)"
| "vkyc_message now sid (BiometricData d) im st =
     Some (Continue, Map.empty, add_log sid ''biometric'' d st)"
| "vkyc_message now sid (LocationData d) im st =
     Some (Continue, Map.empty, add_log sid ''location'' d st)"
| "vkyc_message now sid (IpAddress ip) im st =
     Some (Continue, Map.empty, add_log sid ''ip_address'' (JObj [(''ip'', ip)]) st)"
| "vkyc_message now sid KycComplete im st =
     map_option (Pair Break) (kyc_complete now sid im st)"
| "vkyc_message now sid (ErrorReport m) im st = Some (Continue, error_report sid m im st)"
| "vkyc_message now sid other im st = Some (Continue, im, st)"

text \<open>
  The \<^verbatim>\<open>finally\<close> block of the customer's loop: \<^verbatim>\<open>session.status\<close> is read from the
  loop's object, which is the row only when the object is expired.
\<close>

definition vkyc_finally :: "int \<Rightarrow> identity_map \<Rightarrow> state \<Rightarrow> state" where
  "vkyc_finally sid im st =
     (let st1 = disconnect_user (str_int sid) st;
          im1 = refresh sid im st1
      in case im1 sid of
           None \<Rightarrow> st1
         | Some session \<Rightarrow>
             if status session = ''in_progress''
             then snd (commit_session sid [SetStatus ''disconnected''] im1 st1)
             else st1)"

definition close_user_socket :: "string \<Rightarrow> state \<Rightarrow> state" where
  "close_user_socket key st =
     st\<lparr>active_connections :=
          map (\<lambda>p. if fst p = key
                    then (fst p, (snd p)\<lparr>websocket := (websocket (snd p))\<lparr>ws_closed := True\<rparr>\<rparr>)
                    else p) (active_connections st)\<rparr>"

definition close_agent_socket :: "string \<Rightarrow> state \<Rightarrow> state" where
  "close_agent_socket key st =
     st\<lparr>agent_connections :=
          map (\<lambda>p. if fst p = key
                    then (fst p, (snd p)\<lparr>websocket := (websocket (snd p))\<lparr>ws_closed := True\<rparr>\<rparr>)
                    else p) (agent_connections st)\<rparr>"

text \<open>
  The part of \<^verbatim>\<open>websocket_vkyc\<close> before the loop. The result holds the identity map the
  loop starts with; with no session row the socket is closed and the handler returns
  (\<open>None\<close>), leaving the connection entry in place.
\<close>

definition websocket_vkyc_open ::
    "timestamp \<Rightarrow> websocket \<Rightarrow> int \<Rightarrow> state \<Rightarrow> identity_map option \<times> state" where
  "websocket_vkyc_open now ws sid st =
     (let st1 = connect_user now ws (str_int sid) st;
          q = query_session sid Map.empty st1
      in case fst q of
           None \<Rightarrow> (None, close_user_socket (str_int sid) st1)
         | Some session \<Rightarrow>
             (Some (snd q),
              snd (send_to_user now
                     [(''type'', JStr ''heartbeat_interval''), (''interval'', JInt 30)]
                     (str_int sid) st1)))"

subsection \<open>The agent's receive loop (\<^verbatim>\<open>websocket_agent\<close>)\<close>

text \<open>
  \<^verbatim>\<open>accept_session\<close>. The session is queried in the agent loop's ORM session, so the
  status guard reads the object that session has loaded, if any. After the first commit
  the customer query reads \<^verbatim>\<open>session.customer_id\<close>, which loads the row again.
\<close>

definition accept_session ::
    "timestamp \<Rightarrow> agent \<Rightarrow> int \<Rightarrow> identity_map \<Rightarrow> state \<Rightarrow> (identity_map \<times> state) option" where
  "accept_session now agent sid im st =
     (let eid = employee_id agent;
          q = query_session sid im st;
          im1 = snd q
      in case fst q of
           None \<Rightarrow>
             Some (im1, snd (send_to_agent now (error_message_to_agent ''Session not found'') eid st))
         | Some session \<Rightarrow>
             if status session \<noteq> ''waiting_for_agent'' then
               Some (im1, snd (send_to_agent now
                                 (error_message_to_agent
                                    ''Session is not waiting for agent or already assigned'') eid st))
             else if agent_sessions st eid \<noteq> None then
               Some (im1, snd (send_to_agent now
                                 (error_message_to_agent
                                    ''You are already assigned to another session'') eid st))
             else if \<not> fst (assign_agent_to_session eid sid st) then
               Some (im1, snd (send_to_agent now
                                 (error_message_to_agent ''Could not assign agent to session'') eid
                                 (snd (assign_agent_to_session eid sid st))))
             else
               (let st1 = snd (assign_agent_to_session eid sid st);
                    st2 = st1\<lparr>waiting_sessions := waiting_sessions st1 - {sid}\<rparr>;
                    c = commit_session sid
                          [SetAgentId (Some (agent_pk agent)), SetStatus ''agent_joined'',
                           SetAgentAssignedAt (Some now)] im1 st2;
                    st3 = snd c;
                    im3 = refresh sid (fst c) st3;
                    fresh = (case im3 sid of None \<Rightarrow> session | Some obj \<Rightarrow> obj);
                    customer = get_customer (customer_id fresh) st3;
                    agent_name = first_name agent @ '' '' @ last_name agent;
                    st4 = snd (send_to_user now
                                 [(''type'', JStr ''agent_assigned''),
                                  (''message'', JStr ''Agent has joined. Starting VKYC session...''),
                                  (''agent_name'', JStr agent_name)] (str_int sid) st3);
                    st5 = snd (send_to_agent now
                                 [(''type'', JStr ''session_accepted''),
                                  (''session_id'', JInt sid),
                                  (''customer_id'', JInt (customer_id fresh)),
                                  (''unique_id'', JStr (unique_id fresh)),
                                  (''customer_name'', customer_name customer),
                                  (''customer_mobile'', customer_mobile customer)] eid st4)
                in case broadcast_to_all_agents now
                          [(''type'', JStr ''session_taken''), (''session_id'', JInt sid),
                           (''agent_employee_id'', JStr eid),
                           (''agent_name'', JStr agent_name)] st5 of
                     None \<Rightarrow> None
                   | Some st6 \<Rightarrow>
                       (let st7 = (case recordings st6 (str_int sid) of
                                     None \<Rightarrow> st6
                                   | Some r \<Rightarrow>
                                       st6\<lparr>recordings :=
                                             (recordings st6)(str_int sid \<mapsto> start_recording now r)\<rparr>);
                            c2 = commit_session sid [SetStatus ''in_progress''] im3 st7;
                            st8 = snd c2
                        in Some (fst c2, st8\<lparr>timers := timers st8 @ [(sid, now + 300)]\<rparr>))))"

definition decline_session ::
    "timestamp \<Rightarrow> int \<Rightarrow> identity_map \<Rightarrow> state \<Rightarrow> (identity_map \<times> state) option" where
  "decline_session now sid im st =
     (let q = query_session sid im st
      in case fst q of
           None \<Rightarrow> Some (snd q, st)
         | Some session \<Rightarrow>
             (let st1 = st\<lparr>waiting_sessions := waiting_sessions st - {sid}\<rparr>;
                  c = commit_session sid [SetStatus ''declined''] (snd q) st1
              in case broadcast_to_all_agents now
                        [(''type'', JStr ''session_removed''), (''session_id'', JInt sid)] (snd c) of
                   None \<Rightarrow> None
                 | Some st3 \<Rightarrow>
                     Some (fst c,
                           snd (send_to_user now
                                  [(''type'', JStr ''agent_declined''),
                                   (''message'', JStr ''Agent declined. Please retry.'')]
                                  (str_int sid) st3))))"

definition request_document_capture :: "timestamp \<Rightarrow> string \<Rightarrow> int \<Rightarrow> string \<Rightarrow> state \<Rightarrow> state" where
  "request_document_capture now eid sid doc_type st =
     (if agent_sessions st eid \<noteq> Some sid then
        snd (send_to_agent now
               (error_message_to_agent ''You are not assigned to this session'') eid st)
      else
        (let st1 = snd (send_to_user now
                          [(''type'', JStr ''request_document_capture''),
                           (''doc_type'', JStr doc_type),
                           (''message'', JStr (''Please show your '' @ upper doc_type @ '' card''))]
                          (str_int sid) st)
         in snd (send_to_agent now
                   [(''type'', JStr ''document_capture_requested''),
                    (''session_id'', JInt sid), (''doc_type'', JStr doc_type)] eid st1)))"

text \<open>
  The agent's \<^verbatim>\<open>webrtc_*\<close> branch: \<^verbatim>\<open>if session_id and str(session_id) in
  manager.active_connections\<close>. A missing \<^verbatim>\<open>session_id\<close> (\<open>None\<close>) and 0 are both false.
\<close>

definition agent_webrtc :: "timestamp \<Rightarrow> webrtc_kind \<Rightarrow> int option \<Rightarrow> json \<Rightarrow> state \<Rightarrow> state" where
  "agent_webrtc now k session_id payload st =
     (case session_id of
        None \<Rightarrow> st
      | Some sid \<Rightarrow>
          if sid \<noteq> 0 \<and> map_of (active_connections st) (str_int sid) \<noteq> None then
            snd (send_to_user now
                   [(''type'', JStr (webrtc_type k)), (''session_id'', JInt sid),
                    (''payload'', payload)] (str_int sid) st)
          else st)"

definition cancel_document_capture :: "timestamp \<Rightarrow> string \<Rightarrow> int \<Rightarrow> state \<Rightarrow> state" where
  "cancel_document_capture now eid sid st =
     (if agent_sessions st eid \<noteq> Some sid then
        snd (send_to_agent now
               (error_message_to_agent ''You are not assigned to this session'') eid st)
      else
        snd (send_to_user now
               [(''type'', JStr ''cancel_document_capture''),
                (''message'', JStr ''Document capture cancelled'')] (str_int sid) st))"

definition leave_session ::
    "timestamp \<Rightarrow> string \<Rightarrow> int \<Rightarrow> identity_map \<Rightarrow> state \<Rightarrow> (identity_map \<times> state) option" where
  "leave_session now eid sid im st =
     (if agent_sessions st eid = Some sid then
        (let q = query_session sid im st
         in case fst q of
              None \<Rightarrow> Some (snd q, st)
            | Some session \<Rightarrow>
                (let c = commit_session sid
                           [SetStatus ''waiting_for_agent'', SetAgentId None] (snd q) st;
                     st1 = snd c;
                     st2 = st1\<lparr>session_agents := (session_agents st1)(sid := None)\<rparr>;
                     st3 = st2\<lparr>agent_sessions := (agent_sessions st2)(eid := None)\<rparr>;
                     st4 = snd (add_waiting_session sid st3);
                     st5 = snd (send_to_user now
                                  [(''type'', JStr ''agent_left''),
                                   (''message'', JStr ''Agent has left. Waiting for new agent...'')]
                                  (str_int sid) st4);
                     st6 = snd (send_to_agent now
                                  [(''type'', JStr ''session_left''), (''session_id'', JInt sid),
                                   (''message'', JStr ''You left the session'')] eid st5)
                 in map_option (Pair (fst c))
                      (broadcast_to_all_agents now
                         [(''type'', JStr ''session_available''), (''session_id'', JInt sid)] st6)))
      else Some (im, st))"

text \<open>
  One pass of the loop body of \<^verbatim>\<open>websocket_agent\<close>. \<open>agent\<close> is the row the handler
  loaded at connect; no branch of this loop leaves the loop.
\<close>

fun agent_message ::
    "timestamp \<Rightarrow> agent \<Rightarrow> ws_message \<Rightarrow> identity_map \<Rightarrow> state \<Rightarrow> (identity_map \<times> state) option" where
  "agent_message now agent Heartbeat im st = Some (im, st)"
| "agent_message now agent (AcceptSession sid) im st = accept_session now agent sid im st"
| "agent_message now agent (DeclineSession sid) im st = decline_session now sid im st"
| "agent_message now agent (RequestDocumentCapture sid doc_type) im st =
     Some (im, request_document_capture now (employee_id agent) sid doc_type st)"
| "agent_message now agent (Webrtc k sid payload) im st =
     Some (im, agent_webrtc now k sid payload st)"
| "agent_message now agent (CancelDocumentCapture sid) im st =
     Some (im, cancel_document_capture now (employee_id agent) sid st)"
| "agent_message now agent (LeaveSession sid) im st =
     leave_session now (employee_id agent) sid im st"
| "agent_message now agent other im st = Some (im, st)"

text \<open>The \<^verbatim>\<open>finally\<close> block of the agent's loop.\<close>

definition websocket_agent_finally :: "timestamp \<Rightarrow> string \<Rightarrow> state \<Rightarrow> state" where
  "websocket_agent_finally now eid st =
     (let st1 = (case agent_sessions st eid of
                   None \<Rightarrow> st
                 | Some sid \<Rightarrow> if sid \<noteq> 0 then stop_recorder_of now (str_int sid) st else st)
      in disconnect_agent eid st1)"

definition waiting_session_entry :: "state \<Rightarrow> vkyc_session \<Rightarrow> json" where
  "waiting_session_entry st s =
     (let customer = get_customer (customer_id s) st
      in JObj [(''session_id'', JInt (sess_id s)),
               (''customer_id'', JInt (customer_id s)),
               (''unique_id'', JStr (unique_id s)),
               (''customer_name'', customer_name customer),
               (''customer_mobile'', customer_mobile customer),
               (''started_at'', (case started_at s of None \<Rightarrow> JNull | Some t \<Rightarrow> JInt t))])"

text \<open>
  The part of \<^verbatim>\<open>websocket_agent\<close> before the loop. The query for the waiting sessions
  loads each of them into the loop's ORM session, where they stay until the loop
  commits.
\<close>

definition websocket_agent_open ::
    "timestamp \<Rightarrow> websocket \<Rightarrow> string \<Rightarrow> state \<Rightarrow> (agent \<times> identity_map) option \<times> state" where
  "websocket_agent_open now ws eid st =
     (let st1 = connect_agent now ws eid st
      in case find (\<lambda>a. employee_id a = eid) (agents st1) of
           None \<Rightarrow> (None, close_agent_socket eid st1)
         | Some agent \<Rightarrow>
             (let st2 = snd (send_to_agent now
                               [(''type'', JStr ''heartbeat_interval''), (''interval'', JInt 30)]
                               eid st1);
                  waiting = filter (\<lambda>r. status r = ''waiting_for_agent'') (vkyc_sessions st2)
              in (Some (agent, map_of (map (\<lambda>r. (sess_id r, r)) waiting)),
                  snd (send_to_agent now
                         [(''type'', JStr ''waiting_sessions''),
                          (''sessions'', JList (map (waiting_session_entry st2) waiting))]
                         eid st2))))"

subsection \<open>Events of the running system\<close>

text \<open>
  What can happen to a running backend, one event at a time: a request to the start
  endpoint, a party connecting on a new socket, a message arriving on the receive loop of
  a socket, a receive loop ending (its \<^verbatim>\<open>finally\<close> block), an expiry timer coming due,
  the liveness sweep, and a transport going down without a close frame. A receive loop is
  known by the number of its socket and holds its ORM session. \<open>step\<close> is \<open>None\<close>
  when the event is not possible in the state (the socket number is in use, no such loop
  is running, no such timer is due) or when the handler never returns.
\<close>

datatype event =
    StartVkyc string
  | UserConnects nat int
  | UserSends nat ws_message
  | UserCloses nat
  | AgentConnects nat string
  | AgentSends nat ws_message
  | AgentCloses nat
  | TimerFires int timestamp
  | CleanupSweep
  | TransportDown endpoint

record user_loop =
  loop_session_id :: int
  loop_db :: identity_map

record agent_loop =
  loop_agent :: agent
  agent_db :: identity_map

record system =
  core :: state
  user_loops :: "(nat \<times> user_loop) list"
  agent_loops :: "(nat \<times> agent_loop) list"

definition boot :: "customer list \<Rightarrow> agent list \<Rightarrow> system" where
  "boot cs ags = \<lparr>core = initial cs ags, user_loops = [], agent_loops = []\<rparr>"

definition socket_in_use :: "nat \<Rightarrow> system \<Rightarrow> bool" where
  "socket_in_use wid sys =
     (map_of (user_loops sys) wid \<noteq> None \<or> map_of (agent_loops sys) wid \<noteq> None)"

fun step :: "timestamp \<Rightarrow> event \<Rightarrow> system \<Rightarrow> system option" where
  "step now (StartVkyc uid) sys = Some (sys\<lparr>core := snd (start_vkyc now uid (core sys))\<rparr>)"
| "step now (UserConnects wid sid) sys =
     (if socket_in_use wid sys then None
      else
        (let r = websocket_vkyc_open now \<lparr>ws_id = wid, ws_closed = False\<rparr> sid (core sys)
         in Some (sys\<lparr>core := snd r,
                      user_loops :=
                        (case fst r of
                           None \<Rightarrow> user_loops sys
                         | Some im \<Rightarrow>
                             AList.update wid \<lparr>loop_session_id = sid, loop_db = im\<rparr>
                               (user_loops sys))\<rparr>)))"
| "step now (UserSends wid m) sys =
     (case map_of (user_loops sys) wid of
        None \<Rightarrow> None
      | Some l \<Rightarrow>
          (case vkyc_message now (loop_session_id l) m (loop_db l) (core sys) of
             None \<Rightarrow> None
           | Some (Continue, im, st) \<Rightarrow>
               Some (sys\<lparr>core := st,
                        user_loops := AList.update wid (l\<lparr>loop_db := im\<rparr>) (user_loops sys)\<rparr>)
           | Some (Break, im, st) \<Rightarrow>
               Some (sys\<lparr>core := vkyc_finally (loop_session_id l) im st,
                        user_loops := AList.delete wid (user_loops sys)\<rparr>)))"
| "step now (UserCloses wid) sys =
     (case map_of (user_loops sys) wid of
        None \<Rightarrow> None
      | Some l \<Rightarrow>
          Some (sys\<lparr>core := vkyc_finally (loop_session_id l) (loop_db l) (core sys),
                   user_loops := AList.delete wid (user_loops sys)\<rparr>))"
| "step now (AgentConnects wid eid) sys =
     (if socket_in_use wid sys then None
      else
        (let r = websocket_agent_open now \<lparr>ws_id = wid, ws_closed = False\<rparr> eid (core sys)
         in Some (sys\<lparr>core := snd r,
                      agent_loops :=
                        (case fst r of
                           None \<Rightarrow> agent_loops sys
                         | Some (agent, im) \<Rightarrow>
                             AList.update wid \<lparr>loop_agent = agent, agent_db = im\<rparr>
                               (agent_loops sys))\<rparr>)))"
| "step now (AgentSends wid m) sys =
     (case map_of (agent_loops sys) wid of
        None \<Rightarrow> None
      | Some l \<Rightarrow>
          (case agent_message now (loop_agent l) m (agent_db l) (core sys) of
             None \<Rightarrow> None
           | Some (im, st) \<Rightarrow>
               Some (sys\<lparr>core := st,
                        agent_loops := AList.update wid (l\<lparr>agent_db := im\<rparr>) (agent_loops sys)\<rparr>)))"
| "step now (AgentCloses wid) sys =
     (case map_of (agent_loops sys) wid of
        None \<Rightarrow> None
      | Some l \<Rightarrow>
          Some (sys\<lparr>core := websocket_agent_finally now (employee_id (loop_agent l)) (core sys),
                   agent_loops := AList.delete wid (agent_loops sys)\<rparr>))"
| "step now (TimerFires sid due) sys =
     (if (sid, due) \<in> set (timers (core sys)) \<and> due \<le> now then
        (case session_expiry_timer now sid
                ((core sys)\<lparr>timers := remove1 (sid, due) (timers (core sys))\<rparr>) of
           None \<Rightarrow> None
         | Some st \<Rightarrow> Some (sys\<lparr>core := st\<rparr>))
      else None)"
| "step now CleanupSweep sys =
     Some (sys\<lparr>core := cleanup_stale_connections now 60 (core sys)\<rparr>)"
| "step now (TransportDown (ToUser key)) sys =
     Some (sys\<lparr>core := close_user_socket key (core sys)\<rparr>)"
| "step now (TransportDown (ToAgent key)) sys =
     Some (sys\<lparr>core := close_agent_socket key (core sys)\<rparr>)"

fun run :: "(timestamp \<times> event) list \<Rightarrow> system \<Rightarrow> system option" where
  "run [] sys = Some sys"
| "run ((now, e) # es) sys =
     (case step now e sys of None \<Rightarrow> None | Some sys' \<Rightarrow> run es sys')"

inductive reachable :: "system \<Rightarrow> bool" where
  reachable_boot: "reachable (boot cs ags)"
| reachable_step: "reachable sys \<Longrightarrow> step now e sys = Some sys' \<Longrightarrow> reachable sys'"

subsection \<open>Predicates of the claims\<close>

text \<open>The two assignment maps are mutual inverses.\<close>

definition inverse_maps :: "state \<Rightarrow> bool" where
  "inverse_maps st =
     (\<forall>a s. (agent_sessions st a = Some s) = (session_agents st s = Some a))"

text \<open>
  The three conditions of the placement claim: the session is in the waiting set, it is
  in an assignment pair, its status is not one of the active ones.
\<close>

definition in_waiting_set :: "state \<Rightarrow> int \<Rightarrow> bool" where
  "in_waiting_set st sid = (sid \<in> waiting_sessions st)"

definition in_assignment_pair :: "state \<Rightarrow> int \<Rightarrow> bool" where
  "in_assignment_pair st sid = (session_agents st sid \<noteq> None)"

definition non_active_status :: "state \<Rightarrow> int \<Rightarrow> bool" where
  "non_active_status st sid =
     (case get_session sid st of
        None \<Rightarrow> False
      | Some r \<Rightarrow>
          status r \<notin> set [''started'', ''waiting_for_agent'', ''agent_joined'',
                           ''in_progress'', ''disconnected''])"

definition exactly_one :: "bool \<Rightarrow> bool \<Rightarrow> bool \<Rightarrow> bool" where
  "exactly_one a b c = ((a \<and> \<not> b \<and> \<not> c) \<or> (\<not> a \<and> b \<and> \<not> c) \<or> (\<not> a \<and> \<not> b \<and> c))"

definition placed_once :: "state \<Rightarrow> int \<Rightarrow> bool" where
  "placed_once st sid =
     exactly_one (in_waiting_set st sid) (in_assignment_pair st sid) (non_active_status st sid)"

text \<open>Every registered agent socket accepts a send.\<close>

definition all_agents_open :: "state \<Rightarrow> bool" where
  "all_agents_open st = list_all (\<lambda>p. \<not> ws_closed (websocket (snd p))) (agent_connections st)"

text \<open>
  The ORM session with identity map \<open>im\<close> holds a loaded object of session \<open>sid\<close> whose
  status is \<open>v\<close>: an assignment of \<open>v\<close> to the status of that object is no change, and
  a commit does not write the column.
\<close>

definition status_loaded :: "identity_map \<Rightarrow> int \<Rightarrow> string \<Rightarrow> bool" where
  "status_loaded im sid v = (case im sid of None \<Rightarrow> False | Some obj \<Rightarrow> status obj = v)"

text \<open>The status of the row of a session.\<close>

definition status_of :: "state \<Rightarrow> int \<Rightarrow> string option" where
  "status_of st sid = map_option status (get_session sid st)"

subsection \<open>Example states and traces\<close>

definition entry :: "int \<Rightarrow> int \<Rightarrow> string \<Rightarrow> string \<Rightarrow> vkyc_session" where
  "entry sid cid uid stat =
     \<lparr>sess_id = sid, customer_id = cid, agent_id = None, unique_id = uid, status = stat,
      scheduled_time = None, started_at = Some 0, agent_assigned_at = None,
      completed_at = None, video_path = None, error_message = None\<rparr>"

definition asha :: customer where
  "asha = \<lparr>cust_id = 1, cust_unique_id = ''U1'', cust_name = ''Asha'', cust_mobile = ''9000000001''\<rparr>"

definition raj :: agent where
  "raj = \<lparr>agent_pk = 1, employee_id = ''EMP1'', first_name = ''Raj'', last_name = ''Rao''\<rparr>"

definition mia :: agent where
  "mia = \<lparr>agent_pk = 2, employee_id = ''EMP2'', first_name = ''Mia'', last_name = ''Sen''\<rparr>"

definition completed_example :: state where
  "completed_example =
     (initial [] [])\<lparr>vkyc_sessions :=
        [\<lparr>sess_id = 1, customer_id = 1, agent_id = None, unique_id = ''U1'',
          status = ''completed'', scheduled_time = None, started_at = Some 0,
          agent_assigned_at = None, completed_at = Some 5, video_path = None,
          error_message = None\<rparr>]\<rparr>"

definition lobby :: state where
  "lobby =
     connect_agent 1 \<lparr>ws_id = 2, ws_closed = False\<rparr> ''EMP1''
       (connect_user 0 \<lparr>ws_id = 1, ws_closed = False\<rparr> ''1''
          ((initial [asha] [raj])\<lparr>vkyc_sessions := [entry 1 1 ''U1'' ''started'']\<rparr>))"

definition paired :: state where
  "paired = snd (assign_agent_to_session ''EMP1'' 1 lobby)"


definition two_sessions :: state where
  "two_sessions =
     (initial [asha] [])\<lparr>vkyc_sessions :=
        [entry 5 1 ''U1'' ''disconnected'', entry 2 1 ''U1'' ''started'',
         entry 7 1 ''U1'' ''completed'']\<rparr>"

definition waiting_trace :: "(timestamp \<times> event) list" where
  "waiting_trace =
     [(0, StartVkyc ''U1''), (1, UserConnects 1 1), (2, AgentConnects 2 ''EMP1''),
      (3, UserSends 1 ReadyForAgent)]"

definition accept_trace :: "(timestamp \<times> event) list" where
  "accept_trace = waiting_trace @ [(4, AgentSends 2 (AcceptSession 1))]"

definition heartbeat_trace :: "(timestamp \<times> event) list" where
  "heartbeat_trace =
     [(0, StartVkyc ''U1''), (0, UserConnects 1 1), (0, AgentConnects 2 ''EMP1''),
      (50, UserSends 1 Heartbeat), (50, AgentSends 2 Heartbeat)]"

definition heartbeats_seen :: "system \<Rightarrow> (string \<times> timestamp) list \<times> (string \<times> timestamp) list" where
  "heartbeats_seen sys =
     (map (\<lambda>p. (fst p, last_heartbeat (snd p))) (active_connections (core sys)),
      map (\<lambda>p. (fst p, last_heartbeat (snd p))) (agent_connections (core sys)))"

definition intruder_trace :: "(timestamp \<times> event) list" where
  "intruder_trace =
     [(0, StartVkyc ''U1''), (1, UserConnects 1 1), (2, AgentConnects 2 ''EMP1''),
      (3, AgentConnects 3 ''EMP2''), (4, UserSends 1 ReadyForAgent),
      (5, AgentSends 2 (AcceptSession 1))]"

section \<open>Properties\<close>

subsection \<open>Decimal strings\<close>

lemma str_nat_digits: "list_all is_digit_char (str_nat n) \<and> str_nat n \<noteq> []"
proof (induction n rule: str_nat.induct)
  case (1 n)
  have d: "is_digit_char (digit_char k)" if "k < 10" for k
    using that by (simp add: is_digit_char_def digit_char_def)
  show ?case
  proof (cases "n < 10")
    case True
    then show ?thesis by (simp add: str_nat.simps [of n] d)
  next
    case False
    with 1 show ?thesis by (simp add: str_nat.simps [of n] d)
  qed
qed

lemma int_str_snoc: "int_str (s @ [c]) = 10 * int_str s + (int (of_char c) - 48)"
  by (simp add: int_str_def)

lemma int_str_str_nat: "int_str (str_nat n) = int n"
proof (induction n rule: str_nat.induct)
  case (1 n)
  have d: "int (of_char (digit_char k)) - 48 = int k" if "k < 10" for k
    using that by (simp add: digit_char_def)
  show ?case
  proof (cases "n < 10")
    case True
    then show ?thesis by (simp add: str_nat.simps [of n] int_str_def d)
  next
    case False
    with 1 have ih: "int_str (str_nat (n div 10)) = int (n div 10)" by simp
    have split: "10 * int (n div 10) + int (n mod 10) = int n"
      by presburger
    have "int_str (str_nat n) = 10 * int (n div 10) + int (n mod 10)"
      using False ih by (simp add: str_nat.simps [of n] int_str_snoc d)
    with split show ?thesis by simp
  qed
qed

lemma isdigit_str_int: "0 \<le> n \<Longrightarrow> isdigit (str_int n)"
  using str_nat_digits [of "nat n"] by (simp add: isdigit_def str_int_def)

lemma int_str_str_int: "0 \<le> n \<Longrightarrow> int_str (str_int n) = n"
  by (simp add: str_int_def int_str_str_nat)

subsection \<open>What each manager operation leaves alone\<close>

lemma disconnect_user_fields [simp]:
  "waiting_sessions (disconnect_user k st) = waiting_sessions st"
  "vkyc_sessions (disconnect_user k st) = vkyc_sessions st"
  "sent (disconnect_user k st) = sent st"
  "timers (disconnect_user k st) = timers st"
  "customers (disconnect_user k st) = customers st"
  "agents (disconnect_user k st) = agents st"
  "vkyc_logs (disconnect_user k st) = vkyc_logs st"
  "agent_connections (disconnect_user k st) = agent_connections st"
  "active_connections (disconnect_user k st) = AList.delete k (active_connections st)"
  by (simp_all add: disconnect_user_def Let_def split: option.splits)

lemma disconnect_agent_fields [simp]:
  "waiting_sessions (disconnect_agent e st) = waiting_sessions st"
  "vkyc_sessions (disconnect_agent e st) = vkyc_sessions st"
  "sent (disconnect_agent e st) = sent st"
  "timers (disconnect_agent e st) = timers st"
  "customers (disconnect_agent e st) = customers st"
  "agents (disconnect_agent e st) = agents st"
  "vkyc_logs (disconnect_agent e st) = vkyc_logs st"
  "active_connections (disconnect_agent e st) = active_connections st"
  "recordings (disconnect_agent e st) = recordings st"
  "agent_connections (disconnect_agent e st) = AList.delete e (agent_connections st)"
  by (simp_all add: disconnect_agent_def Let_def split: option.splits)

lemma send_to_user_fields [simp]:
  "waiting_sessions (snd (send_to_user now m k st)) = waiting_sessions st"
  "vkyc_sessions (snd (send_to_user now m k st)) = vkyc_sessions st"
  "timers (snd (send_to_user now m k st)) = timers st"
  "customers (snd (send_to_user now m k st)) = customers st"
  "agents (snd (send_to_user now m k st)) = agents st"
  "vkyc_logs (snd (send_to_user now m k st)) = vkyc_logs st"
  "agent_connections (snd (send_to_user now m k st)) = agent_connections st"
  by (simp_all add: send_to_user_def split: option.splits)

lemma send_to_agent_fields [simp]:
  "waiting_sessions (snd (send_to_agent now m e st)) = waiting_sessions st"
  "vkyc_sessions (snd (send_to_agent now m e st)) = vkyc_sessions st"
  "timers (snd (send_to_agent now m e st)) = timers st"
  "customers (snd (send_to_agent now m e st)) = customers st"
  "agents (snd (send_to_agent now m e st)) = agents st"
  "vkyc_logs (snd (send_to_agent now m e st)) = vkyc_logs st"
  "active_connections (snd (send_to_agent now m e st)) = active_connections st"
  "recordings (snd (send_to_agent now m e st)) = recordings st"
  by (simp_all add: send_to_agent_def split: option.splits)

lemma send_to_user_sent:
  "sent (snd (send_to_user now m k st)) = sent st
   \<or> sent (snd (send_to_user now m k st)) = sent st @ [(ToUser k, m)]"
  by (simp add: send_to_user_def split: option.splits)

lemma send_to_agent_sent:
  "sent (snd (send_to_agent now m e st)) = sent st
   \<or> sent (snd (send_to_agent now m e st)) = sent st @ [(ToAgent e, m)]"
  by (simp add: send_to_agent_def split: option.splits)

lemma broadcast_fold_fields [simp]:
  "waiting_sessions (fold (broadcast_send now m) ps st) = waiting_sessions st"
  "vkyc_sessions (fold (broadcast_send now m) ps st) = vkyc_sessions st"
  "timers (fold (broadcast_send now m) ps st) = timers st"
  "customers (fold (broadcast_send now m) ps st) = customers st"
  "agents (fold (broadcast_send now m) ps st) = agents st"
  "vkyc_logs (fold (broadcast_send now m) ps st) = vkyc_logs st"
  "active_connections (fold (broadcast_send now m) ps st) = active_connections st"
  "recordings (fold (broadcast_send now m) ps st) = recordings st"
  "agent_sessions (fold (broadcast_send now m) ps st) = agent_sessions st"
  "session_agents (fold (broadcast_send now m) ps st) = session_agents st"
  by (induction ps arbitrary: st; simp add: broadcast_send_def)+

lemma broadcast_fields:
  assumes "broadcast_to_all_agents now m st = Some st'"
  shows "waiting_sessions st' = waiting_sessions st"
    and "vkyc_sessions st' = vkyc_sessions st"
    and "timers st' = timers st"
    and "customers st' = customers st"
    and "agents st' = agents st"
    and "vkyc_logs st' = vkyc_logs st"
    and "active_connections st' = active_connections st"
    and "recordings st' = recordings st"
    and "agent_sessions st' = agent_sessions st"
    and "session_agents st' = session_agents st"
  using assms by (auto simp: broadcast_to_all_agents_def Let_def split: if_splits)

lemma update_session_fields [simp]:
  "waiting_sessions (update_session sid f st) = waiting_sessions st"
  "sent (update_session sid f st) = sent st"
  "timers (update_session sid f st) = timers st"
  "customers (update_session sid f st) = customers st"
  "agents (update_session sid f st) = agents st"
  "vkyc_logs (update_session sid f st) = vkyc_logs st"
  "active_connections (update_session sid f st) = active_connections st"
  "agent_connections (update_session sid f st) = agent_connections st"
  "recordings (update_session sid f st) = recordings st"
  "agent_sessions (update_session sid f st) = agent_sessions st"
  "session_agents (update_session sid f st) = session_agents st"
  by (simp_all add: update_session_def)

lemma commit_session_parts [simp]:
  "fst (commit_session sid assigns im st) = Map.empty"
  "snd (commit_session sid assigns im st) = update_session sid (flush (im sid) assigns) st"
  by (simp_all add: commit_session_def)

lemma sess_id_assign_column [simp]: "sess_id (assign_column a r) = sess_id r"
  by (cases a) simp_all

lemma sess_id_flush [simp]: "sess_id (flush loaded assigns r) = sess_id r"
proof -
  have "sess_id (fold assign_column xs r) = sess_id r" for xs
    by (induction xs arbitrary: r) simp_all
  then show ?thesis by (simp add: flush_def)
qed

lemma status_flush:
  "status (flush loaded [SetStatus v] r) =
     (if net_change loaded (SetStatus v) then v else status r)"
  "status (flush loaded [SetStatus v, SetAgentId w] r) =
     (if net_change loaded (SetStatus v) then v else status r)"
  by (simp_all add: flush_def)

lemma get_session_update_session:
  assumes "\<And>r. sess_id (f r) = sess_id r"
  shows "get_session sid (update_session sid f st) = map_option f (get_session sid st)"
proof -
  have "find (\<lambda>r. sess_id r = sid) (map (\<lambda>r. if sess_id r = sid then f r else r) rows)
          = map_option f (find (\<lambda>r. sess_id r = sid) rows)" for rows
    by (induction rows) (simp_all add: assms)
  then show ?thesis by (simp add: get_session_def update_session_def)
qed

lemma get_session_cong:
  "vkyc_sessions st' = vkyc_sessions st \<Longrightarrow> get_session sid st' = get_session sid st"
  by (simp add: get_session_def)

lemma session_agents_send_to_user_None:
  "session_agents st sid = None \<Longrightarrow> session_agents (snd (send_to_user now m k st)) sid = None"
  by (simp add: send_to_user_def disconnect_user_def Let_def split: option.splits)

lemma session_agents_send_to_agent_None:
  "session_agents st sid = None \<Longrightarrow> session_agents (snd (send_to_agent now m e st)) sid = None"
  by (simp add: send_to_agent_def disconnect_agent_def Let_def split: option.splits)

lemma map_of_delete_self: "map_of (AList.delete k xs) k = None"
  by (simp add: AList.delete_conv)

lemma query_session_found:
  "get_session sid st = Some r \<Longrightarrow>
     \<exists>obj. fst (query_session sid im st) = Some obj
           \<and> snd (query_session sid im st) sid = Some obj
           \<and> (status_loaded im sid v \<longrightarrow> status obj = v)
           \<and> (\<not> status_loaded im sid v \<and> status obj = v \<longrightarrow> status r = v)"
  by (auto simp: query_session_def status_loaded_def split: option.splits)


subsection \<open>Traces reach reachable states\<close>

lemma run_reachable:
  "reachable sys \<Longrightarrow> run es sys = Some sys' \<Longrightarrow> reachable sys'"
proof (induction es arbitrary: sys)
  case Nil
  then show ?case by simp
next
  case (Cons p es)
  obtain now e where p: "p = (now, e)" by (cases p)
  with Cons.prems(2) obtain mid where
    m: "step now e sys = Some mid" "run es mid = Some sys'"
    by (auto split: option.splits)
  from reachable_step [OF Cons.prems(1) m(1)] Cons.IH m(2) show ?case by blast
qed

subsection \<open>Every handler keeps the assignment maps inverse\<close>

lemma inverse_maps_same:
  "agent_sessions st' = agent_sessions st \<Longrightarrow> session_agents st' = session_agents st
     \<Longrightarrow> inverse_maps st' = inverse_maps st"
  by (simp add: inverse_maps_def)

lemma inverse_maps_updates [simp]:
  "inverse_maps (st\<lparr>active_connections := ac\<rparr>) = inverse_maps st"
  "inverse_maps (st\<lparr>agent_connections := gc\<rparr>) = inverse_maps st"
  "inverse_maps (st\<lparr>waiting_sessions := w\<rparr>) = inverse_maps st"
  "inverse_maps (st\<lparr>recordings := rc\<rparr>) = inverse_maps st"
  "inverse_maps (st\<lparr>vkyc_sessions := vs\<rparr>) = inverse_maps st"
  "inverse_maps (st\<lparr>vkyc_logs := vl\<rparr>) = inverse_maps st"
  "inverse_maps (st\<lparr>sent := sn\<rparr>) = inverse_maps st"
  "inverse_maps (st\<lparr>timers := tm\<rparr>) = inverse_maps st"
  by (simp_all add: inverse_maps_def)

lemma inverse_maps_release:
  "inverse_maps st \<Longrightarrow> agent_sessions st a = Some s \<Longrightarrow>
     inverse_maps (st\<lparr>agent_sessions := (agent_sessions st)(a := None),
                      session_agents := (session_agents st)(s := None)\<rparr>)"
  unfolding inverse_maps_def by (auto split: if_splits; metis option.inject)

lemma inverse_maps_disconnect_user:
  assumes "inverse_maps st" shows "inverse_maps (disconnect_user k st)"
proof -
  let ?st2 = "st\<lparr>active_connections := AList.delete k (active_connections st),
                recordings := (recordings st)(k := None)\<rparr>"
  have inv2: "inverse_maps ?st2" using assms by simp
  have rel: "inverse_maps (?st2\<lparr>agent_sessions := (agent_sessions ?st2)(a := None),
                      session_agents := (session_agents ?st2)(n := None)\<rparr>)"
    if "session_agents ?st2 n = Some a" for n a
  proof -
    from that inv2 have "agent_sessions ?st2 a = Some n" by (simp add: inverse_maps_def)
    from inverse_maps_release [OF inv2 this] show ?thesis .
  qed
  show ?thesis
    using inv2 rel by (simp add: disconnect_user_def Let_def split: option.splits)
qed

lemma inverse_maps_disconnect_agent:
  assumes "inverse_maps st" shows "inverse_maps (disconnect_agent e st)"
proof -
  let ?st1 = "st\<lparr>agent_connections := AList.delete e (agent_connections st)\<rparr>"
  have inv1: "inverse_maps ?st1" using assms by simp
  have rel: "inverse_maps (?st1\<lparr>session_agents := (session_agents ?st1)(s := None),
                      agent_sessions := (agent_sessions ?st1)(e := None)\<rparr>)"
    if "agent_sessions ?st1 e = Some s" for s
    using inv1 that unfolding inverse_maps_def by (auto split: if_splits; metis option.inject)
  show ?thesis
    using inv1 rel by (simp add: disconnect_agent_def Let_def split: option.splits)
qed

lemma inverse_maps_send_to_user:
  "inverse_maps st \<Longrightarrow> inverse_maps (snd (send_to_user now m k st))"
  by (simp add: send_to_user_def inverse_maps_disconnect_user split: option.splits)

lemma inverse_maps_send_to_agent:
  "inverse_maps st \<Longrightarrow> inverse_maps (snd (send_to_agent now m e st))"
  by (simp add: send_to_agent_def inverse_maps_disconnect_agent split: option.splits)

lemma inverse_maps_broadcast:
  "inverse_maps st \<Longrightarrow> broadcast_to_all_agents now m st = Some st' \<Longrightarrow> inverse_maps st'"
  using broadcast_fields(9,10) [of now m st st'] inverse_maps_same [of st' st] by simp

lemma inverse_maps_assign:
  assumes "inverse_maps st" shows "inverse_maps (snd (assign_agent_to_session e s st))"
proof (cases "agent_sessions st e = None \<and> session_agents st s = None")
  case True
  then have "inverse_maps (st\<lparr>agent_sessions := (agent_sessions st)(e \<mapsto> s),
               session_agents := (session_agents st)(s \<mapsto> e)\<rparr>)"
    using assms unfolding inverse_maps_def by (auto split: if_splits; metis option.distinct(1))
  with True show ?thesis by (simp add: assign_agent_to_session_def)
next
  case False
  with assms show ?thesis by (auto simp: assign_agent_to_session_def)
qed

lemma inverse_maps_add_waiting:
  "inverse_maps (snd (add_waiting_session s st)) = inverse_maps st"
  by (simp add: add_waiting_session_def)

lemma inverse_maps_update_session [simp]:
  "inverse_maps (update_session s f st) = inverse_maps st"
  by (simp add: update_session_def)

lemma inverse_maps_stop_recorder [simp]:
  "inverse_maps (stop_recorder_of now k st) = inverse_maps st"
  by (simp add: stop_recorder_of_def split: option.splits)

lemma inverse_maps_add_log [simp]:
  "inverse_maps (add_log s t d st) = inverse_maps st"
  by (simp add: add_log_def)

lemma inverse_maps_fold_disconnect_user:
  "inverse_maps st \<Longrightarrow> inverse_maps (fold disconnect_user ks st)"
  by (induction ks arbitrary: st) (simp_all add: inverse_maps_disconnect_user)

lemma inverse_maps_fold_disconnect_agent:
  "inverse_maps st \<Longrightarrow> inverse_maps (fold disconnect_agent ks st)"
  by (induction ks arbitrary: st) (simp_all add: inverse_maps_disconnect_agent)

lemma inverse_maps_cleanup:
  "inverse_maps st \<Longrightarrow> inverse_maps (cleanup_stale_connections now t st)"
  by (simp add: cleanup_stale_connections_def Let_def inverse_maps_fold_disconnect_user
        inverse_maps_fold_disconnect_agent)

lemma inverse_maps_timer:
  assumes "inverse_maps st" "session_expiry_timer now s st = Some st'"
  shows "inverse_maps st'"
proof (cases "get_session s st")
  case None
  with assms show ?thesis by (simp add: session_expiry_timer_def)
next
  case (Some session)
  show ?thesis
  proof (cases "status session \<in> set [''waiting_for_agent'', ''in_progress'']")
    case False
    with Some assms show ?thesis by (simp add: session_expiry_timer_def)
  next
    case True
    let ?st2 = "snd (send_to_user now
                         [(''type'', JStr ''session_expired''),
                          (''message'', JStr ''Session expired. Please retry.'')]
                         (str_int s) (update_session s (\<lambda>r. r\<lparr>status := ''expired''\<rparr>) st))"
    have i2: "inverse_maps ?st2"
      using assms(1) by (simp add: inverse_maps_send_to_user)
    from True Some assms(2) obtain st3 where
      b: "broadcast_to_all_agents now
            [(''type'', JStr ''session_expired''), (''session_id'', JInt s)] ?st2 = Some st3"
      and r: "st' = disconnect_user (str_int s) st3"
      by (auto simp: session_expiry_timer_def Let_def split: option.splits)
    from inverse_maps_broadcast [OF i2 b] r show ?thesis
      by (simp add: inverse_maps_disconnect_user)
  qed
qed

lemma inverse_maps_start_vkyc:
  "inverse_maps (snd (start_vkyc now u st)) = inverse_maps st"
  by (simp add: start_vkyc_def Let_def split: option.splits)

lemma inverse_maps_broadcast_eq:
  "broadcast_to_all_agents now m st = Some st' \<Longrightarrow> inverse_maps st' = inverse_maps st"
  using broadcast_fields(9,10) [of now m st st'] inverse_maps_same [of st' st] by simp

lemmas inverse_maps_sends =
  inverse_maps_send_to_user inverse_maps_send_to_agent inverse_maps_disconnect_user
  inverse_maps_disconnect_agent inverse_maps_assign inverse_maps_add_waiting

lemma inverse_maps_user_left:
  "inverse_maps st \<Longrightarrow> inverse_maps (snd (user_left now s im st))"
  by (simp add: user_left_def Let_def inverse_maps_sends split: option.splits)

lemma inverse_maps_ready_for_agent:
  assumes "inverse_maps st" "ready_for_agent now s im st = Some (c, im', st')"
  shows "inverse_maps st'"
  using assms
  by (auto simp: ready_for_agent_def Let_def inverse_maps_sends
           split: option.splits if_splits dest!: inverse_maps_broadcast_eq)

lemma inverse_maps_user_webrtc:
  "inverse_maps st \<Longrightarrow> inverse_maps (user_webrtc now s k p st)"
  by (simp add: user_webrtc_def inverse_maps_send_to_agent split: option.splits)

lemma inverse_maps_kyc_complete:
  assumes "inverse_maps st" "kyc_complete now s im st = Some (im', st')"
  shows "inverse_maps st'"
  using assms
  by (auto simp: kyc_complete_def Let_def inverse_maps_sends
           split: option.splits dest!: inverse_maps_broadcast_eq)

lemma inverse_maps_vkyc_message:
  assumes "inverse_maps st" "vkyc_message now s m im st = Some (c, im', st')"
  shows "inverse_maps st'"
proof (cases m)
  case UserLeft
  with assms inverse_maps_user_left [of st now s im] show ?thesis
    by (cases "user_left now s im st") auto
next
  case ReadyForAgent
  with assms show ?thesis by (auto dest: inverse_maps_ready_for_agent)
next
  case KycComplete
  with assms show ?thesis by (auto dest: inverse_maps_kyc_complete)
next
  case (ErrorReport x)
  with assms show ?thesis by (auto simp: error_report_def commit_session_def)
qed (use assms in \<open>auto simp: inverse_maps_user_webrtc\<close>)

lemma inverse_maps_vkyc_finally:
  "inverse_maps st \<Longrightarrow> inverse_maps (vkyc_finally s im st)"
  by (simp add: vkyc_finally_def Let_def inverse_maps_disconnect_user split: option.splits)

lemma inverse_maps_accept_session:
  assumes "inverse_maps st" "accept_session now agent s im st = Some (im', st')"
  shows "inverse_maps st'"
  using assms
  by (auto simp: accept_session_def Let_def inverse_maps_sends
           split: option.splits if_splits dest!: inverse_maps_broadcast_eq)

lemma inverse_maps_decline_session:
  assumes "inverse_maps st" "decline_session now s im st = Some (im', st')"
  shows "inverse_maps st'"
  using assms
  by (auto simp: decline_session_def Let_def inverse_maps_sends
           split: option.splits dest!: inverse_maps_broadcast_eq)

lemma inverse_maps_request_document_capture:
  "inverse_maps st \<Longrightarrow> inverse_maps (request_document_capture now e s d st)"
  by (simp add: request_document_capture_def Let_def inverse_maps_send_to_agent
        inverse_maps_send_to_user)

lemma inverse_maps_cancel_document_capture:
  "inverse_maps st \<Longrightarrow> inverse_maps (cancel_document_capture now e s st)"
  by (simp add: cancel_document_capture_def inverse_maps_send_to_agent
        inverse_maps_send_to_user)

lemma inverse_maps_agent_webrtc:
  "inverse_maps st \<Longrightarrow> inverse_maps (agent_webrtc now k s p st)"
  by (simp add: agent_webrtc_def inverse_maps_send_to_user split: option.splits)

lemma inverse_maps_leave_session:
  assumes "inverse_maps st" "leave_session now e s im st = Some (im', st')"
  shows "inverse_maps st'"
proof (cases "agent_sessions st e = Some s \<and> fst (query_session s im st) \<noteq> None")
  case False
  with assms show ?thesis by (auto simp: leave_session_def Let_def split: if_splits)
next
  case True
  let ?st1 = "update_session s
                (flush (snd (query_session s im st) s)
                   [SetStatus ''waiting_for_agent'', SetAgentId None]) st"
  let ?st3 = "?st1\<lparr>session_agents := (session_agents ?st1)(s := None),
                  agent_sessions := (agent_sessions ?st1)(e := None)\<rparr>"
  have "inverse_maps ?st1" "agent_sessions ?st1 e = Some s"
    using assms(1) True by simp_all
  then have i3: "inverse_maps ?st3"
    unfolding inverse_maps_def by (auto split: if_splits; metis option.inject)
  from True assms(2) obtain m5 m6 m7 where
    b: "broadcast_to_all_agents now m7
          (snd (send_to_agent now m6 e
             (snd (send_to_user now m5 (str_int s) (snd (add_waiting_session s ?st3)))))) = Some st'"
    by (auto simp: leave_session_def Let_def)
  have "inverse_maps (snd (send_to_agent now m6 e
             (snd (send_to_user now m5 (str_int s) (snd (add_waiting_session s ?st3))))))"
    using i3
    by (intro inverse_maps_send_to_agent inverse_maps_send_to_user)
       (simp add: inverse_maps_add_waiting)
  from inverse_maps_broadcast [OF this b] show ?thesis .
qed

lemma inverse_maps_agent_message:
  assumes "inverse_maps st" "agent_message now agent m im st = Some (im', st')"
  shows "inverse_maps st'"
  using assms
  by (cases m)
     (auto simp: inverse_maps_request_document_capture inverse_maps_cancel_document_capture
                 inverse_maps_agent_webrtc
           dest: inverse_maps_accept_session inverse_maps_decline_session
                 inverse_maps_leave_session)

lemma inverse_maps_agent_finally:
  "inverse_maps st \<Longrightarrow> inverse_maps (websocket_agent_finally now e st)"
  by (simp add: websocket_agent_finally_def Let_def inverse_maps_disconnect_agent
        split: option.splits)

lemma inverse_maps_connect [simp]:
  "inverse_maps (connect_user now ws k st) = inverse_maps st"
  "inverse_maps (connect_agent now ws e st) = inverse_maps st"
  "inverse_maps (close_user_socket k st) = inverse_maps st"
  "inverse_maps (close_agent_socket e st) = inverse_maps st"
  by (simp_all add: connect_user_def connect_agent_def close_user_socket_def
        close_agent_socket_def inverse_maps_def)

lemma inverse_maps_vkyc_open:
  "inverse_maps st \<Longrightarrow> inverse_maps (snd (websocket_vkyc_open now ws s st))"
  by (simp add: websocket_vkyc_open_def Let_def inverse_maps_send_to_user split: option.splits)

lemma inverse_maps_agent_open:
  "inverse_maps st \<Longrightarrow> inverse_maps (snd (websocket_agent_open now ws e st))"
  by (simp add: websocket_agent_open_def Let_def inverse_maps_send_to_agent split: option.splits)

lemma inverse_maps_step:
  assumes "inverse_maps (core sys)" "step now e sys = Some sys'"
  shows "inverse_maps (core sys')"
proof (cases e)
  case (StartVkyc u)
  with assms show ?thesis by (auto simp: inverse_maps_start_vkyc)
next
  case (UserConnects w s)
  with assms show ?thesis
    by (auto simp: Let_def inverse_maps_vkyc_open split: if_splits)
next
  case (UserSends w m)
  with assms obtain l where l: "map_of (user_loops sys) w = Some l"
    by (auto split: option.splits)
  with UserSends assms(2) obtain c im st where
    h: "vkyc_message now (loop_session_id l) m (loop_db l) (core sys) = Some (c, im, st)"
    by (auto split: option.splits)
  with UserSends assms(2) l have
    r: "core sys' = st \<or> core sys' = vkyc_finally (loop_session_id l) im st"
    by (cases c) auto
  from inverse_maps_vkyc_message [OF assms(1) h] r show ?thesis
    by (auto intro: inverse_maps_vkyc_finally)
next
  case (UserCloses w)
  with assms show ?thesis by (auto split: option.splits intro: inverse_maps_vkyc_finally)
next
  case (AgentConnects w a)
  with assms show ?thesis
    by (auto simp: Let_def inverse_maps_agent_open split: if_splits)
next
  case (AgentSends w m)
  with assms show ?thesis
    by (auto split: option.splits dest: inverse_maps_agent_message)
next
  case (AgentCloses w)
  with assms show ?thesis by (auto split: option.splits intro: inverse_maps_agent_finally)
next
  case (TimerFires s d)
  with assms show ?thesis
    by (auto split: if_splits option.splits
             dest: inverse_maps_timer [rotated])
next
  case CleanupSweep
  with assms show ?thesis by (auto simp: inverse_maps_cleanup)
next
  case (TransportDown p)
  with assms show ?thesis by (cases p) auto
qed

lemma reachable_inverse_maps: "reachable sys \<Longrightarrow> inverse_maps (core sys)"
proof (induction rule: reachable.induct)
  case (reachable_boot cs ags)
  show ?case by (simp add: boot_def initial_def inverse_maps_def)
next
  case (reachable_step sys now e sys')
  then show ?case using inverse_maps_step by blast
qed

subsection \<open>Handlers return when every agent socket is open\<close>

lemma broadcast_returns:
  "all_agents_open st \<Longrightarrow> \<exists>st'. broadcast_to_all_agents now m st = Some st'"
proof -
  assume "all_agents_open st"
  then have "\<forall>p\<in>set (agent_connections st). \<not> ws_closed (websocket (snd p))"
    by (simp add: all_agents_open_def list_all_iff)
  then have "filter (\<lambda>p. ws_closed (websocket (snd p))) (agent_connections st) = []"
    unfolding filter_empty_conv by blast
  then show ?thesis
    by (simp add: broadcast_to_all_agents_def Let_def)
qed

lemma list_all_update:
  "list_all P xs \<Longrightarrow> P (k, v) \<Longrightarrow> list_all P (AList.update k v xs)"
  by (induction xs) auto

lemma list_all_delete:
  "list_all P xs \<Longrightarrow> list_all P (AList.delete k xs)"
  by (simp add: AList.delete_eq list_all_iff)

lemma all_agents_open_send_to_agent:
  assumes "all_agents_open st"
  shows "all_agents_open (snd (send_to_agent now m e st))"
proof (cases "map_of (agent_connections st) e")
  case None
  then show ?thesis using assms by (simp add: send_to_agent_def)
next
  case (Some c)
  show ?thesis
  proof (cases "ws_closed (websocket c)")
    case True
    have "list_all (\<lambda>p. \<not> ws_closed (websocket (snd p))) (AList.delete e (agent_connections st))"
      using assms unfolding all_agents_open_def by (rule list_all_delete)
    then show ?thesis using Some True by (simp add: send_to_agent_def all_agents_open_def)
  next
    case False
    have "list_all (\<lambda>p. \<not> ws_closed (websocket (snd p)))
            (AList.update e (c\<lparr>last_heartbeat := now\<rparr>) (agent_connections st))"
      using assms False unfolding all_agents_open_def by (intro list_all_update) simp_all
    then show ?thesis using Some False by (simp add: send_to_agent_def all_agents_open_def)
  qed
qed

lemma all_agents_open_send_to_user [simp]:
  "all_agents_open (snd (send_to_user now m k st)) = all_agents_open st"
  by (simp add: all_agents_open_def)

lemma all_agents_open_update_session [simp]:
  "all_agents_open (update_session sid f st) = all_agents_open st"
  by (simp add: all_agents_open_def)

lemma all_agents_open_add_waiting [simp]:
  "all_agents_open (snd (add_waiting_session sid st)) = all_agents_open st"
  by (simp add: add_waiting_session_def all_agents_open_def)

lemma all_agents_open_updates [simp]:
  "all_agents_open (st\<lparr>waiting_sessions := w\<rparr>) = all_agents_open st"
  "all_agents_open (st\<lparr>session_agents := sa\<rparr>) = all_agents_open st"
  "all_agents_open (st\<lparr>agent_sessions := ag\<rparr>) = all_agents_open st"
  by (simp_all add: all_agents_open_def)

subsection \<open>C1: waiting set, assignment pair and status\<close>

lemma leave_session_returns_to_waiting:
  assumes "agent_sessions st e = Some sid" "get_session sid st = Some r"
      and "all_agents_open st"
  shows "\<exists>im' st'. leave_session now e sid im st = Some (im', st')
           \<and> in_waiting_set st' sid \<and> \<not> in_assignment_pair st' sid
           \<and> status_of st' sid =
               Some (if status_loaded im sid ''waiting_for_agent'' then status r
                     else ''waiting_for_agent'')"
proof -
  let ?q = "query_session sid im st"
  from query_session_found [OF assms(2), of im "''waiting_for_agent''"] obtain obj where
    q: "fst ?q = Some obj" "snd ?q sid = Some obj"
    and l: "status_loaded im sid ''waiting_for_agent'' \<longrightarrow> status obj = ''waiting_for_agent''"
           "\<not> status_loaded im sid ''waiting_for_agent'' \<and> status obj = ''waiting_for_agent''
              \<longrightarrow> status r = ''waiting_for_agent''"
    by blast
  let ?st1 = "update_session sid
                (flush (Some obj) [SetStatus ''waiting_for_agent'', SetAgentId None]) st"
  let ?st3 = "?st1\<lparr>session_agents := (session_agents ?st1)(sid := None),
                  agent_sessions := (agent_sessions ?st1)(e := None)\<rparr>"
  let ?st4 = "snd (add_waiting_session sid ?st3)"
  let ?st5 = "snd (send_to_user now
                     [(''type'', JStr ''agent_left''),
                      (''message'', JStr ''Agent has left. Waiting for new agent...'')]
                     (str_int sid) ?st4)"
  let ?st6 = "snd (send_to_agent now
                     [(''type'', JStr ''session_left''), (''session_id'', JInt sid),
                      (''message'', JStr ''You left the session'')] e ?st5)"
  have "all_agents_open ?st6"
    using assms(3) by (intro all_agents_open_send_to_agent) simp
  from broadcast_returns [OF this] obtain st' where
    b: "broadcast_to_all_agents now
          [(''type'', JStr ''session_available''), (''session_id'', JInt sid)] ?st6 = Some st'"
    by blast
  have ret: "leave_session now e sid im st = Some (Map.empty, st')"
    using assms(1) q b by (simp add: leave_session_def Let_def)
  have w4: "sid \<in> waiting_sessions ?st4" by (simp add: add_waiting_session_def)
  have a4: "session_agents ?st4 sid = None" by (simp add: add_waiting_session_def)
  have v4: "vkyc_sessions ?st4 = vkyc_sessions ?st1" by (simp add: add_waiting_session_def)
  have w6: "sid \<in> waiting_sessions ?st6" using w4 by simp
  have a6: "session_agents ?st6 sid = None"
    using a4 by (intro session_agents_send_to_agent_None session_agents_send_to_user_None)
  have v6: "vkyc_sessions ?st6 = vkyc_sessions ?st1" using v4 by simp
  from broadcast_fields [OF b] w6 a6 v6 have after:
    "sid \<in> waiting_sessions st'" "session_agents st' sid = None"
    "vkyc_sessions st' = vkyc_sessions ?st1"
    by simp_all
  have "get_session sid ?st1 =
          Some (flush (Some obj) [SetStatus ''waiting_for_agent'', SetAgentId None] r)"
    using assms(2) by (simp add: get_session_update_session)
  then have "status_of ?st1 sid =
          Some (if status obj \<noteq> ''waiting_for_agent'' then ''waiting_for_agent'' else status r)"
    by (simp add: status_of_def status_flush net_change_def)
  with l have "status_of ?st1 sid =
          Some (if status_loaded im sid ''waiting_for_agent'' then status r
                else ''waiting_for_agent'')"
    by auto
  with after(3) have "status_of st' sid =
          Some (if status_loaded im sid ''waiting_for_agent'' then status r
                else ''waiting_for_agent'')"
    using get_session_cong [of st' ?st1 sid] by (simp add: status_of_def)
  with ret after(1,2) show ?thesis
    by (simp add: in_waiting_set_def in_assignment_pair_def)
qed

lemma decline_session_leaves_waiting:
  assumes "get_session sid st = Some r" "all_agents_open st"
  shows "\<exists>im' st'. decline_session now sid im st = Some (im', st')
           \<and> \<not> in_waiting_set st' sid
           \<and> status_of st' sid =
               Some (if status_loaded im sid ''declined'' then status r else ''declined'')"
proof -
  let ?q = "query_session sid im st"
  from query_session_found [OF assms(1), of im "''declined''"] obtain obj where
    q: "fst ?q = Some obj" "snd ?q sid = Some obj"
    and l: "status_loaded im sid ''declined'' \<longrightarrow> status obj = ''declined''"
           "\<not> status_loaded im sid ''declined'' \<and> status obj = ''declined''
              \<longrightarrow> status r = ''declined''"
    by blast
  let ?st2 = "update_session sid (flush (Some obj) [SetStatus ''declined''])
                (st\<lparr>waiting_sessions := waiting_sessions st - {sid}\<rparr>)"
  have "all_agents_open ?st2" using assms(2) by simp
  from broadcast_returns [OF this] obtain st3 where
    b: "broadcast_to_all_agents now
          [(''type'', JStr ''session_removed''), (''session_id'', JInt sid)] ?st2 = Some st3"
    by blast
  let ?st' = "snd (send_to_user now
                     [(''type'', JStr ''agent_declined''),
                      (''message'', JStr ''Agent declined. Please retry.'')]
                     (str_int sid) st3)"
  have ret: "decline_session now sid im st = Some (Map.empty, ?st')"
    using q b by (simp add: decline_session_def Let_def)
  from broadcast_fields [OF b] have after:
    "waiting_sessions ?st' = waiting_sessions st - {sid}" "vkyc_sessions ?st' = vkyc_sessions ?st2"
    by simp_all
  have "get_session sid ?st2 = Some (flush (Some obj) [SetStatus ''declined''] r)"
    using assms(1) get_session_cong [of "st\<lparr>waiting_sessions := waiting_sessions st - {sid}\<rparr>" st sid]
    by (simp add: get_session_update_session)
  then have "status_of ?st2 sid =
          Some (if status obj \<noteq> ''declined'' then ''declined'' else status r)"
    by (simp add: status_of_def status_flush net_change_def)
  with l have "status_of ?st2 sid =
          Some (if status_loaded im sid ''declined'' then status r else ''declined'')"
    by auto
  with after(2) have "status_of ?st' sid =
          Some (if status_loaded im sid ''declined'' then status r else ''declined'')"
    using get_session_cong [of ?st' ?st2 sid] by (simp add: status_of_def)
  with ret after(1) show ?thesis
    by (simp add: in_waiting_set_def)
qed

lemma placement_traces_eval:
  "map_option (\<lambda>sys. (in_waiting_set (core sys) 1, map_of (active_connections (core sys)) ''1'' = None,
                        map status (vkyc_sessions (core sys))))
     (run (waiting_trace @ [(9, UserCloses 1)]) (boot [asha] [raj]))
     = Some (True, True, [''waiting_for_agent''])"
  "map_option (\<lambda>sys. (in_waiting_set (core sys) 1, non_active_status (core sys) 1,
                        placed_once (core sys) 1))
     (run (waiting_trace @ [(303, TimerFires 1 303)]) (boot [asha] [raj]))
     = Some (True, True, False)"
  "map_option (\<lambda>sys. (map status (vkyc_sessions (core sys)), placed_once (core sys) 1))
     (run [(0, StartVkyc ''U1'')] (boot [asha] [raj]))
     = Some ([''started''], False)"
  by (code_simp, code_simp, code_simp)

text \<open>
  The claim C1 as stated fails in reachable states. After the customer of a waiting
  session disconnects, the session is still in the waiting set. After the expiry timer
  has flipped a waiting session to \<^verbatim>\<open>expired\<close>, the session is in the waiting set and has
  a non-active status. A session that was only started is in none of the three
  conditions.
\<close>

theorem waiting_set_exclusion_counterexample:
  "(case run (waiting_trace @ [(9, UserCloses 1)]) (boot [asha] [raj]) of
      None \<Rightarrow> False
    | Some sys \<Rightarrow>
        reachable sys \<and> map_of (active_connections (core sys)) ''1'' = None
        \<and> in_waiting_set (core sys) 1)
   \<and> (case run (waiting_trace @ [(303, TimerFires 1 303)]) (boot [asha] [raj]) of
      None \<Rightarrow> False
    | Some sys \<Rightarrow>
        reachable sys \<and> in_waiting_set (core sys) 1 \<and> non_active_status (core sys) 1
        \<and> \<not> placed_once (core sys) 1)
   \<and> (case run [(0, StartVkyc ''U1'')] (boot [asha] [raj]) of
      None \<Rightarrow> False
    | Some sys \<Rightarrow>
        reachable sys \<and> map status (vkyc_sessions (core sys)) = [''started'']
        \<and> \<not> placed_once (core sys) 1)"
proof -
  from placement_traces_eval(1) obtain s1 where
    r1: "run (waiting_trace @ [(9, UserCloses 1)]) (boot [asha] [raj]) = Some s1"
    and p1: "map_of (active_connections (core s1)) ''1'' = None" "in_waiting_set (core s1) 1"
    by auto
  from placement_traces_eval(2) obtain s2 where
    r2: "run (waiting_trace @ [(303, TimerFires 1 303)]) (boot [asha] [raj]) = Some s2"
    and p2: "in_waiting_set (core s2) 1" "non_active_status (core s2) 1"
            "\<not> placed_once (core s2) 1"
    by auto
  from placement_traces_eval(3) obtain s3 where
    r3: "run [(0, StartVkyc ''U1'')] (boot [asha] [raj]) = Some s3"
    and p3: "map status (vkyc_sessions (core s3)) = [''started'']" "\<not> placed_once (core s3) 1"
    by auto
  have "reachable s1" "reachable s2" "reachable s3"
    using run_reachable [OF reachable_boot r1] run_reachable [OF reachable_boot r2]
      run_reachable [OF reachable_boot r3]
    by blast+
  with r1 p1 r2 p2 r3 p3 show ?thesis by simp
qed

text \<open>
  C1, amended. (a) A successful \<^verbatim>\<open>assign_agent_to_session\<close> leaves the session in an
  assignment pair and out of the waiting set. (b) \<^verbatim>\<open>leave_session\<close> by the assigned
  agent, for a session that has a record and with every agent socket open, returns and
  leaves the session in the waiting set and in no pair; the status of the record is then
  \<^verbatim>\<open>waiting_for_agent\<close>, so that exactly one of the three conditions holds, unless the
  agent's ORM session holds a loaded object of the session whose status is already
  \<^verbatim>\<open>waiting_for_agent\<close>, in which case the status column is not written and the record
  keeps the status it has. (c) \<^verbatim>\<open>decline_session\<close> for a session that has a record, with
  every agent socket open, returns and leaves the session out of the waiting set; the
  status of the record is then \<^verbatim>\<open>declined\<close>, a non-active status, unless the agent's ORM
  session holds a loaded object whose status is already \<^verbatim>\<open>declined\<close>, in which case the
  record keeps the status it has. (d) \<^verbatim>\<open>disconnect_user\<close> never changes membership in the
  waiting set. No exclusion between the three conditions is stated for every reachable
  state.
\<close>

theorem waiting_and_assignment_transitions:
  "(fst (assign_agent_to_session eid sid st) \<longrightarrow>
       in_assignment_pair (snd (assign_agent_to_session eid sid st)) sid
       \<and> \<not> in_waiting_set (snd (assign_agent_to_session eid sid st)) sid)
   \<and> (agent_sessions st eid = Some sid \<and> get_session sid st \<noteq> None \<and> all_agents_open st \<longrightarrow>
       (case leave_session now eid sid im st of
          None \<Rightarrow> False
        | Some (im', st') \<Rightarrow>
            in_waiting_set st' sid \<and> \<not> in_assignment_pair st' sid
            \<and> status_of st' sid =
                (if status_loaded im sid ''waiting_for_agent'' then status_of st sid
                 else Some ''waiting_for_agent'')
            \<and> (\<not> status_loaded im sid ''waiting_for_agent'' \<longrightarrow> placed_once st' sid)))
   \<and> (get_session sid st \<noteq> None \<and> all_agents_open st \<longrightarrow>
       (case decline_session now sid im st of
          None \<Rightarrow> False
        | Some (im', st') \<Rightarrow>
            \<not> in_waiting_set st' sid
            \<and> status_of st' sid =
                (if status_loaded im sid ''declined'' then status_of st sid
                 else Some ''declined'')
            \<and> (\<not> status_loaded im sid ''declined'' \<longrightarrow> non_active_status st' sid)))
   \<and> in_waiting_set (disconnect_user key st) sid = in_waiting_set st sid"
proof -
  have a: "in_assignment_pair (snd (assign_agent_to_session eid sid st)) sid
       \<and> \<not> in_waiting_set (snd (assign_agent_to_session eid sid st)) sid"
    if "fst (assign_agent_to_session eid sid st)"
    using that
    by (auto simp: assign_agent_to_session_def in_assignment_pair_def in_waiting_set_def
             split: if_splits)
  have b: "case leave_session now eid sid im st of
          None \<Rightarrow> False
        | Some (im', st') \<Rightarrow>
            in_waiting_set st' sid \<and> \<not> in_assignment_pair st' sid
            \<and> status_of st' sid =
                (if status_loaded im sid ''waiting_for_agent'' then status_of st sid
                 else Some ''waiting_for_agent'')
            \<and> (\<not> status_loaded im sid ''waiting_for_agent'' \<longrightarrow> placed_once st' sid)"
    if h: "agent_sessions st eid = Some sid" "get_session sid st \<noteq> None" "all_agents_open st"
  proof -
    from h(2) obtain r where r: "get_session sid st = Some r" by auto
    from leave_session_returns_to_waiting [OF h(1) r h(3), of now im] obtain im' st' where
      l: "leave_session now eid sid im st = Some (im', st')"
         "in_waiting_set st' sid" "\<not> in_assignment_pair st' sid"
         "status_of st' sid =
               Some (if status_loaded im sid ''waiting_for_agent'' then status r
                     else ''waiting_for_agent'')"
      by blast
    have "placed_once st' sid" if "\<not> status_loaded im sid ''waiting_for_agent''"
      using that l(2,3,4)
      by (auto simp: placed_once_def exactly_one_def non_active_status_def status_of_def
               split: option.splits)
    moreover have "status_of st sid = Some (status r)" using r by (simp add: status_of_def)
    ultimately show ?thesis using l by simp
  qed
  have c: "case decline_session now sid im st of
          None \<Rightarrow> False
        | Some (im', st') \<Rightarrow>
            \<not> in_waiting_set st' sid
            \<and> status_of st' sid =
                (if status_loaded im sid ''declined'' then status_of st sid
                 else Some ''declined'')
            \<and> (\<not> status_loaded im sid ''declined'' \<longrightarrow> non_active_status st' sid)"
    if h: "get_session sid st \<noteq> None" "all_agents_open st"
  proof -
    from h(1) obtain r where r: "get_session sid st = Some r" by auto
    from decline_session_leaves_waiting [OF r h(2), of now im] obtain im' st' where
      l: "decline_session now sid im st = Some (im', st')" "\<not> in_waiting_set st' sid"
         "status_of st' sid =
               Some (if status_loaded im sid ''declined'' then status r else ''declined'')"
      by blast
    have "non_active_status st' sid" if "\<not> status_loaded im sid ''declined''"
      using that l(3)
      by (auto simp: non_active_status_def status_of_def split: option.splits)
    moreover have "status_of st sid = Some (status r)" using r by (simp add: status_of_def)
    ultimately show ?thesis using l by simp
  qed
  have d: "in_waiting_set (disconnect_user key st) sid = in_waiting_set st sid"
    by (simp add: in_waiting_set_def)
  from a b c d show ?thesis by blast
qed

lemma paired_eval:
  "fst (assign_agent_to_session ''EMP1'' 1 lobby)"
  "map_option sess_id (get_session 1 paired) = Some 1"
  "agent_sessions paired ''EMP1'' = Some 1"
  "all_agents_open paired"
  "status_of paired 1 = Some ''started''"
  "map_option (\<lambda>r. status_of (snd r) 1) (leave_session 9 ''EMP1'' 1 Map.empty paired)
     = Some (Some ''waiting_for_agent'')"
  "map_option (\<lambda>r. status_of (snd r) 1) (decline_session 9 1 Map.empty paired)
     = Some (Some ''declined'')"
  "map_option (\<lambda>r. (in_waiting_set (snd r) 1, in_assignment_pair (snd r) 1,
                      status_of (snd r) 1))
     (leave_session 9 ''EMP1'' 1 [1 \<mapsto> entry 1 1 ''U1'' ''waiting_for_agent''] paired)
     = Some (True, False, Some ''started'')"
  by (code_simp, code_simp, code_simp, code_simp, code_simp, code_simp, code_simp, code_simp)

theorem waiting_and_assignment_transitions_witness:
  "fst (assign_agent_to_session ''EMP1'' 1 lobby)
   \<and> in_assignment_pair paired 1 \<and> \<not> in_waiting_set paired 1
   \<and> agent_sessions paired ''EMP1'' = Some 1 \<and> get_session 1 paired \<noteq> None
   \<and> all_agents_open paired \<and> \<not> status_loaded Map.empty 1 ''waiting_for_agent''
   \<and> (case leave_session 9 ''EMP1'' 1 Map.empty paired of
         None \<Rightarrow> False
       | Some (im', st') \<Rightarrow>
           in_waiting_set st' 1 \<and> \<not> in_assignment_pair st' 1
           \<and> status_of st' 1 = Some ''waiting_for_agent'' \<and> placed_once st' 1)
   \<and> (case decline_session 9 1 Map.empty paired of
         None \<Rightarrow> False
       | Some (im', st') \<Rightarrow>
           \<not> in_waiting_set st' 1 \<and> status_of st' 1 = Some ''declined''
           \<and> non_active_status st' 1)
   \<and> status_loaded [1 \<mapsto> entry 1 1 ''U1'' ''waiting_for_agent''] 1 ''waiting_for_agent''
   \<and> (case leave_session 9 ''EMP1'' 1 [1 \<mapsto> entry 1 1 ''U1'' ''waiting_for_agent''] paired of
         None \<Rightarrow> False
       | Some (im', st') \<Rightarrow>
           in_waiting_set st' 1 \<and> \<not> in_assignment_pair st' 1
           \<and> status_of st' 1 = Some ''started'')"
proof -
  from paired_eval(2) have g: "get_session 1 paired \<noteq> None" by auto
  have n: "\<not> status_loaded Map.empty 1 ''waiting_for_agent''"
          "\<not> status_loaded Map.empty 1 ''declined''"
          "status_loaded [1 \<mapsto> entry 1 1 ''U1'' ''waiting_for_agent''] 1 ''waiting_for_agent''"
    by (simp_all add: status_loaded_def entry_def)
  show ?thesis
    using waiting_and_assignment_transitions
        [where eid = "''EMP1''" and sid = 1 and st = lobby and now = 9 and im = Map.empty
           and key = "''1''"]
      waiting_and_assignment_transitions
        [where eid = "''EMP1''" and sid = 1 and st = paired and now = 9 and im = Map.empty
           and key = "''1''"]
      waiting_and_assignment_transitions
        [where eid = "''EMP1''" and sid = 1 and st = paired and now = 9
           and im = "[1 \<mapsto> entry 1 1 ''U1'' ''waiting_for_agent'']" and key = "''1''"]
      paired_eval(1,3,4,5) g n
    by (auto simp: paired_def split: option.splits)
qed

text \<open>
  What the objects held by the customer's loop do after an agent has accepted the
  session. The loop's object was loaded with the status \<^verbatim>\<open>waiting_for_agent\<close>. When the
  loop ends, its \<^verbatim>\<open>finally\<close> block reads that status, not \<^verbatim>\<open>in_progress\<close>, and leaves the
  row as it is. When the customer sends \<^verbatim>\<open>ready_for_agent\<close> again, the assignment of
  \<^verbatim>\<open>waiting_for_agent\<close> changes nothing on the object, so the row keeps \<^verbatim>\<open>in_progress\<close>,
  while the session enters the waiting set with its assignment pair still in place.
\<close>

lemma stale_object_traces_eval:
  "map_option (\<lambda>sys. (map status (vkyc_sessions (core sys)), in_assignment_pair (core sys) 1))
     (run (accept_trace @ [(5, UserCloses 1)]) (boot [asha] [raj]))
     = Some ([''in_progress''], False)"
  "map_option (\<lambda>sys. (map status (vkyc_sessions (core sys)), in_waiting_set (core sys) 1,
                        in_assignment_pair (core sys) 1))
     (run (accept_trace @ [(5, UserSends 1 ReadyForAgent)]) (boot [asha] [raj]))
     = Some ([''in_progress''], True, True)"
  by (code_simp, code_simp)

subsection \<open>C2: exclusive assignment\<close>

text \<open>
  C2. \<^verbatim>\<open>assign_agent_to_session(agentId, sessionId)\<close> returns false and leaves the state
  unchanged if the agent already holds an assignment or the session already has one;
  otherwise it returns true, inserts the pair into \<open>agent_sessions\<close> and
  \<open>session_agents\<close> and removes the session from the waiting set. Of two calls in a row
  naming the same session, at most one returns true.
\<close>

theorem assign_agent_to_session_exclusive:
  "(agent_sessions st a1 \<noteq> None \<or> session_agents st sid \<noteq> None
      \<longrightarrow> assign_agent_to_session a1 sid st = (False, st))
   \<and> (agent_sessions st a1 = None \<and> session_agents st sid = None
      \<longrightarrow> assign_agent_to_session a1 sid st =
            (True, st\<lparr>agent_sessions := (agent_sessions st)(a1 \<mapsto> sid),
                      session_agents := (session_agents st)(sid \<mapsto> a1),
                      waiting_sessions := waiting_sessions st - {sid}\<rparr>))
   \<and> \<not> (fst (assign_agent_to_session a1 sid st)
          \<and> fst (assign_agent_to_session a2 sid (snd (assign_agent_to_session a1 sid st))))"
  by (auto simp: assign_agent_to_session_def)

theorem assign_agent_to_session_exclusive_witness:
  "assign_agent_to_session ''A1'' 7 ((initial [] [])\<lparr>waiting_sessions := {7}\<rparr>) =
     (True, (initial [] [])\<lparr>waiting_sessions := {7}, agent_sessions := [''A1'' \<mapsto> 7],
                            session_agents := [7 \<mapsto> ''A1''], waiting_sessions := {}\<rparr>)
   \<and> assign_agent_to_session ''A2'' 7
        (snd (assign_agent_to_session ''A1'' 7 ((initial [] [])\<lparr>waiting_sessions := {7}\<rparr>))) =
     (False, snd (assign_agent_to_session ''A1'' 7 ((initial [] [])\<lparr>waiting_sessions := {7}\<rparr>)))"
  using assign_agent_to_session_exclusive
          [of "(initial [] [])\<lparr>waiting_sessions := {7}\<rparr>" "''A1''" 7 "''A2''"]
        assign_agent_to_session_exclusive
          [of "snd (assign_agent_to_session ''A1'' 7 ((initial [] [])\<lparr>waiting_sessions := {7}\<rparr>))"
              "''A2''" 7 "''A2''"]
  by (simp add: initial_def)

subsection \<open>C3: starting twice reuses the session\<close>

lemma first_by_id_desc_mem:
  "xs \<noteq> [] \<Longrightarrow> \<exists>r \<in> set xs. first_by_id_desc xs = Some r"
proof (induction xs)
  case Nil
  then show ?case by simp
next
  case (Cons x xs)
  show ?case
  proof (cases xs)
    case Nil
    then show ?thesis by simp
  next
    case (Cons y ys)
    with Cons.IH obtain r where "r \<in> set xs" "first_by_id_desc xs = Some r" by auto
    then show ?thesis by auto
  qed
qed

lemma first_by_id_desc_largest:
  "first_by_id_desc xs = Some r \<Longrightarrow> q \<in> set xs \<Longrightarrow> sess_id q \<le> sess_id r"
proof (induction xs arbitrary: r)
  case Nil
  then show ?case by simp
next
  case (Cons x xs)
  show ?case
  proof (cases "first_by_id_desc xs")
    case None
    have "xs = []"
    proof (rule ccontr)
      assume "xs \<noteq> []"
      from first_by_id_desc_mem [OF this] None show False by auto
    qed
    with Cons.prems show ?thesis by simp
  next
    case (Some r')
    from Cons.IH [OF Some] have le: "q \<in> set xs \<Longrightarrow> sess_id q \<le> sess_id r'" .
    from Cons.prems(1) Some have r: "r = (if sess_id x < sess_id r' then r' else x)"
      by (auto split: if_splits)
    from Cons.prems(2) have "q = x \<or> q \<in> set xs" by auto
    then show ?thesis
    proof
      assume "q = x"
      with r show ?thesis by auto
    next
      assume "q \<in> set xs"
      with le have "sess_id q \<le> sess_id r'" .
      with r show ?thesis by auto
    qed
  qed
qed

text \<open>
  The claim C3 as stated counts \<^verbatim>\<open>agent_joined\<close> among the active statuses. The guard of
  \<^verbatim>\<open>start_vkyc\<close> does not: for a customer whose only session is in \<^verbatim>\<open>agent_joined\<close> the
  call creates a second session record and returns its new id.
\<close>

theorem start_vkyc_agent_joined_counterexample:
  "start_vkyc 10 ''U1'' ((initial [asha] [])\<lparr>vkyc_sessions := [entry 4 1 ''U1'' ''agent_joined'']\<rparr>)
     = (Inr 5, (initial [asha] [])\<lparr>vkyc_sessions :=
                 [entry 4 1 ''U1'' ''agent_joined'',
                  (entry 5 1 ''U1'' ''started'')\<lparr>started_at := Some 10\<rparr>]\<rparr>)"
  by (simp add: start_vkyc_def initial_def asha_def entry_def next_session_id_def)

text \<open>
  C3, amended. For a customer who has a session whose status is one of \<^verbatim>\<open>started\<close>,
  \<^verbatim>\<open>waiting_for_agent\<close>, \<^verbatim>\<open>in_progress\<close>, \<^verbatim>\<open>disconnected\<close>, the start operation returns
  the id of an existing session of that customer with such a status, and no session of
  that customer with such a status has a larger id; the call leaves the store unchanged,
  and a second call returns the same id and again creates no record.
\<close>

theorem start_vkyc_reuses_active_session:
  assumes "find (\<lambda>c. cust_unique_id c = uid) (customers st) = Some c"
      and "r \<in> set (vkyc_sessions st)"
      and "customer_id r = cust_id c"
      and "status r \<in> set [''started'', ''waiting_for_agent'', ''in_progress'', ''disconnected'']"
  shows "\<exists>r' \<in> set (vkyc_sessions st).
           customer_id r' = cust_id c
           \<and> status r' \<in> set [''started'', ''waiting_for_agent'', ''in_progress'', ''disconnected'']
           \<and> (\<forall>q \<in> set (vkyc_sessions st).
                 customer_id q = cust_id c
                 \<and> status q \<in> set [''started'', ''waiting_for_agent'', ''in_progress'',
                                    ''disconnected'']
                 \<longrightarrow> sess_id q \<le> sess_id r')
           \<and> start_vkyc now uid st = (Inr (sess_id r'), st)
           \<and> start_vkyc now' uid (snd (start_vkyc now uid st)) = (Inr (sess_id r'), st)"
proof -
  let ?P = "\<lambda>x. customer_id x = cust_id c \<and>
                 status x \<in> set [''started'', ''waiting_for_agent'', ''in_progress'', ''disconnected'']"
  from assms have "r \<in> set (vkyc_sessions st) \<and> ?P r" by blast
  then have "filter ?P (vkyc_sessions st) \<noteq> []"
    unfolding filter_empty_conv by blast
  then obtain r' where r': "r' \<in> set (filter ?P (vkyc_sessions st))"
      "first_by_id_desc (filter ?P (vkyc_sessions st)) = Some r'"
    using first_by_id_desc_mem by blast
  have call: "start_vkyc t uid st = (Inr (sess_id r'), st)" for t
    using assms(1) r'(2) by (simp add: start_vkyc_def)
  have largest: "sess_id q \<le> sess_id r'" if "q \<in> set (vkyc_sessions st)" "?P q" for q
  proof -
    from that have "q \<in> set (filter ?P (vkyc_sessions st))" by simp
    with r'(2) show ?thesis by (rule first_by_id_desc_largest)
  qed
  from r'(1) have "r' \<in> set (vkyc_sessions st)" "?P r'" by auto
  with call [of now] call [of now'] largest show ?thesis by auto
qed

theorem start_vkyc_reuses_active_session_witness:
  "map (\<lambda>r. (sess_id r, status r)) (vkyc_sessions two_sessions)
     = [(5, ''disconnected''), (2, ''started''), (7, ''completed'')]
   \<and> start_vkyc 10 ''U1'' two_sessions = (Inr 5, two_sessions)
   \<and> start_vkyc 20 ''U1'' (snd (start_vkyc 10 ''U1'' two_sessions)) = (Inr 5, two_sessions)"
  using start_vkyc_reuses_active_session
          [where uid = "''U1''" and st = two_sessions and c = asha
             and r = "entry 2 1 ''U1'' ''started''" and now = 10 and now' = 20]
  by (auto simp: two_sessions_def initial_def asha_def entry_def)

subsection \<open>C4: heartbeat messages\<close>

lemma heartbeat_is_ignored:
  "vkyc_message now sid Heartbeat im st = Some (Continue, im, st)"
  "agent_message now agent Heartbeat im st = Some (im, st)"
  by simp_all

text \<open>
  C4 on the code. Both receive loops \<^verbatim>\<open>continue\<close> on a \<^verbatim>\<open>heartbeat\<close> message without
  touching the connection entry, although the comment in both says that the timestamp is
  updated. A customer and an agent connect at time 0 and each send a heartbeat at time
  50: both timestamps are still 0, and the liveness sweep at time 61 evicts both
  connections, 11 seconds after their heartbeats.
\<close>

theorem heartbeat_does_not_update_timestamp:
  "map_option heartbeats_seen (run heartbeat_trace (boot [asha] [raj]))
     = Some ([(''1'', 0)], [(''EMP1'', 0)])
   \<and> map_option heartbeats_seen (run (heartbeat_trace @ [(61, CleanupSweep)]) (boot [asha] [raj]))
     = Some ([], [])"
  by code_simp

subsection \<open>C5: signaling from an agent that does not own the session\<close>

lemma unassigned_capture_request_is_rejected:
  assumes "agent_sessions st eid \<noteq> Some sid"
      and "map_of (agent_connections st) eid = Some c" "\<not> ws_closed (websocket c)"
  shows "sent (request_document_capture now eid sid d st) =
           sent st @ [(ToAgent eid, error_message_to_agent ''You are not assigned to this session'')]"
    and "sent (cancel_document_capture now eid sid st) =
           sent st @ [(ToAgent eid, error_message_to_agent ''You are not assigned to this session'')]"
  using assms
  by (simp_all add: request_document_capture_def cancel_document_capture_def send_to_agent_def)

text \<open>
  C5 on the code. Agent EMP1 holds session 1. Agent EMP2, who has no assignment, sends a
  \<^verbatim>\<open>webrtc_offer\<close> naming session 1: the offer is forwarded to the customer and EMP2 gets
  no error. The same offer naming session 8, which has no connection, is dropped without
  any message. (The two document-capture branches check the assignment and answer with
  an error, see \<open>unassigned_capture_request_is_rejected\<close>.)
\<close>

theorem unassigned_agent_webrtc_is_forwarded:
  "map_option (\<lambda>sys. (agent_sessions (core sys) ''EMP2'', session_agents (core sys) 1,
                        drop 12 (sent (core sys))))
     (run (intruder_trace @ [(6, AgentSends 3 (Webrtc Offer (Some 1) (JStr ''sdp'')))])
        (boot [asha] [raj, mia]))
     = Some (None, Some ''EMP1'',
             [(ToUser ''1'', [(''type'', JStr ''webrtc_offer''), (''session_id'', JInt 1),
                              (''payload'', JStr ''sdp'')])])
   \<and> map_option (\<lambda>sys. drop 12 (sent (core sys)))
     (run (intruder_trace @ [(6, AgentSends 3 (Webrtc Offer (Some 8) (JStr ''sdp'')))])
        (boot [asha] [raj, mia]))
     = Some []
   \<and> map_option (\<lambda>sys. length (sent (core sys))) (run intruder_trace (boot [asha] [raj, mia]))
     = Some 12"
  by code_simp

subsection \<open>C6: a stale expiry timer\<close>

text \<open>
  C6. When an expiry timer fires for a session whose status is neither
  \<^verbatim>\<open>waiting_for_agent\<close> nor \<^verbatim>\<open>in_progress\<close> (for one, \<^verbatim>\<open>completed\<close>), or for a session
  with no record, the timer returns with the whole state unchanged: no session record
  changes and nothing is sent to the customer or to any agent.
\<close>

theorem stale_timer_is_noop:
  "(get_session sid st = None \<longrightarrow> session_expiry_timer now sid st = Some st)
   \<and> (\<forall>session. get_session sid st = Some session
         \<and> status session \<noteq> ''waiting_for_agent'' \<and> status session \<noteq> ''in_progress''
        \<longrightarrow> session_expiry_timer now sid st = Some st)"
  by (simp add: session_expiry_timer_def)

theorem stale_timer_is_noop_witness:
  "map_option status (get_session 1 completed_example) = Some ''completed''
   \<and> session_expiry_timer 300 1 completed_example = Some completed_example"
  using stale_timer_is_noop [of 1 completed_example 300]
  by (simp add: completed_example_def get_session_def initial_def)

subsection \<open>C7: requests naming an unknown session\<close>






subsection \<open>C8: the de-duplication gate of the waiting set\<close>

lemma ready_for_agent_enters_waiting:
  assumes "ready_for_agent now sid im st = Some (c1, im1, st1)"
  shows "sid \<in> waiting_sessions st1"
proof -
  let ?st1 = "snd (commit_session sid
                     [SetStatus ''waiting_for_agent'', SetStartedAt (Some now)] im st)"
  let ?st2 = "snd (add_waiting_session sid ?st1)"
  have w: "sid \<in> waiting_sessions ?st2"
    by (simp add: add_waiting_session_def)
  have n: "sid \<in> waiting_sessions
             ((snd (send_to_user t m k st3))\<lparr>timers := ts\<rparr>)"
    if "waiting_sessions st3 = waiting_sessions ?st2" for t m k st3 ts
    using that w by simp
  show ?thesis
  proof (cases "fst (add_waiting_session sid ?st1)")
    case False
    with assms n [of ?st2] show ?thesis
      by (auto simp: ready_for_agent_def Let_def)
  next
    case True
    with assms consider "st1 = ?st2"
      | st3 session started where
          "broadcast_to_all_agents now (new_waiting_session_message session started ?st2) ?st2
             = Some st3"
          "st1 = (snd (send_to_user now
                     [(''type'', JStr ''waiting_for_agent''),
                      (''message'', JStr ''Waiting for an available agent...'')]
                     (str_int sid) st3))\<lparr>timers := timers (snd (send_to_user now
                     [(''type'', JStr ''waiting_for_agent''),
                      (''message'', JStr ''Waiting for an available agent...'')]
                     (str_int sid) st3)) @ [(sid, now + 300)]\<rparr>"
      by (auto simp: ready_for_agent_def Let_def split: option.splits)
    then show ?thesis
    proof cases
      case 1
      with w show ?thesis by simp
    next
      case 2
      from broadcast_fields(1) [OF 2(1)] have "waiting_sessions st3 = waiting_sessions ?st2" .
      from n [OF this] 2(2) show ?thesis by simp
    qed
  qed
qed

lemma ready_for_agent_duplicate:
  assumes "sid \<in> waiting_sessions st"
  shows "\<exists>c' im' st'. ready_for_agent now sid im st = Some (c', im', st')
           \<and> (sent st' = sent st
              \<or> sent st' = sent st @
                   [(ToUser (str_int sid),
                     [(''type'', JStr ''waiting_for_agent''),
                      (''message'', JStr ''Waiting for an available agent...'')])])"
  using assms
    send_to_user_sent [of now "[(''type'', JStr ''waiting_for_agent''),
                      (''message'', JStr ''Waiting for an available agent...'')]"
        "str_int sid"
        "update_session sid
           (flush (im sid) [SetStatus ''waiting_for_agent'', SetStartedAt (Some now)]) st"]
  by (simp add: ready_for_agent_def Let_def add_waiting_session_def)

lemma lobby_ready_eval:
  "(case ready_for_agent 5 1 Map.empty lobby of
      None \<Rightarrow> False
    | Some (c1, im1, st1) \<Rightarrow>
        map (\<lambda>p. (fst p, map_of (snd p) ''type'')) (sent st1) =
          [(ToAgent ''EMP1'', Some (JStr ''new_waiting_session'')),
           (ToUser ''1'', Some (JStr ''waiting_for_agent''))]
        \<and> (case ready_for_agent 6 1 im1 st1 of
              None \<Rightarrow> False
            | Some (c2, im2, st2) \<Rightarrow>
                map (\<lambda>p. (fst p, map_of (snd p) ''type'')) (drop (length (sent st1)) (sent st2)) =
                  [(ToUser ''1'', Some (JStr ''waiting_for_agent''))]))"
  by code_simp

text \<open>
  C8. \<^verbatim>\<open>add_waiting_session\<close> returns true for a session that is not yet waiting; a
  second call in a row returns false and leaves the state unchanged. In the
  \<^verbatim>\<open>ready_for_agent\<close> handler the broadcast is sent only when the session was added: after
  a \<^verbatim>\<open>ready_for_agent\<close> that returned, a second one for the same session, from a loop
  with any ORM session, returns as well and sends nothing to any agent (every new message
  goes to the customer and none is a \<^verbatim>\<open>new_waiting_session\<close>).
\<close>

theorem add_waiting_session_dedup:
  "(sid \<notin> waiting_sessions st \<longrightarrow> fst (add_waiting_session sid st))
   \<and> \<not> fst (add_waiting_session sid (snd (add_waiting_session sid st)))
   \<and> snd (add_waiting_session sid (snd (add_waiting_session sid st)))
       = snd (add_waiting_session sid st)
   \<and> (ready_for_agent now sid im st = Some (c1, im1, st1)
        \<longrightarrow> (\<exists>c2 im2 st2. ready_for_agent now' sid im' st1 = Some (c2, im2, st2)
               \<and> (\<forall>p \<in> set (drop (length (sent st1)) (sent st2)).
                     fst p = ToUser (str_int sid)
                     \<and> map_of (snd p) ''type'' \<noteq> Some (JStr ''new_waiting_session''))))"
proof -
  have a: "sid \<notin> waiting_sessions st \<longrightarrow> fst (add_waiting_session sid st)"
    by (simp add: add_waiting_session_def)
  have b: "\<not> fst (add_waiting_session sid (snd (add_waiting_session sid st)))"
    by (simp add: add_waiting_session_def)
  have c: "snd (add_waiting_session sid (snd (add_waiting_session sid st)))
       = snd (add_waiting_session sid st)"
    by (simp add: add_waiting_session_def)
  have d: "\<exists>c2 im2 st2. ready_for_agent now' sid im' st1 = Some (c2, im2, st2)
               \<and> (\<forall>p \<in> set (drop (length (sent st1)) (sent st2)).
                     fst p = ToUser (str_int sid)
                     \<and> map_of (snd p) ''type'' \<noteq> Some (JStr ''new_waiting_session''))"
    if h: "ready_for_agent now sid im st = Some (c1, im1, st1)"
  proof -
    from h have "sid \<in> waiting_sessions st1"
      by (rule ready_for_agent_enters_waiting)
    from ready_for_agent_duplicate [OF this, of now' im'] show ?thesis
      by auto
  qed
  from a b c d show ?thesis by blast
qed

theorem add_waiting_session_dedup_witness:
  "fst (add_waiting_session 1 lobby)
   \<and> \<not> fst (add_waiting_session 1 (snd (add_waiting_session 1 lobby)))
   \<and> (case ready_for_agent 5 1 Map.empty lobby of
      None \<Rightarrow> False
    | Some (c1, im1, st1) \<Rightarrow>
        map (\<lambda>p. (fst p, map_of (snd p) ''type'')) (sent st1) =
          [(ToAgent ''EMP1'', Some (JStr ''new_waiting_session'')),
           (ToUser ''1'', Some (JStr ''waiting_for_agent''))]
        \<and> (case ready_for_agent 6 1 im1 st1 of
              None \<Rightarrow> False
            | Some (c2, im2, st2) \<Rightarrow>
                map (\<lambda>p. (fst p, map_of (snd p) ''type'')) (drop (length (sent st1)) (sent st2)) =
                  [(ToUser ''1'', Some (JStr ''waiting_for_agent''))]))"
proof -
  have w: "1 \<notin> waiting_sessions lobby"
    by (simp add: lobby_def connect_agent_def connect_user_def initial_def)
  from lobby_ready_eval obtain c1 im1 st1 where
    st1: "ready_for_agent 5 1 Map.empty lobby = Some (c1, im1, st1)"
    by (auto split: option.splits)
  from add_waiting_session_dedup
         [where sid = 1 and st = lobby and now = 5 and im = Map.empty and ?c1.0 = c1
            and ?im1.0 = im1 and ?st1.0 = st1 and now' = 6 and im' = im1]
       w st1 lobby_ready_eval
  show ?thesis by simp
qed

subsection \<open>C9: disconnecting either party\<close>

lemma disconnect_user_idem:
  "disconnect_user k (disconnect_user k st) = disconnect_user k st"
  by (auto simp: disconnect_user_def Let_def AList.delete_idem split: option.splits)

lemma disconnect_agent_idem:
  "disconnect_agent e (disconnect_agent e st) = disconnect_agent e st"
  by (auto simp: disconnect_agent_def Let_def AList.delete_idem split: option.splits)

lemma disconnect_user_releases:
  assumes "0 < sid"
  shows "session_agents (disconnect_user (str_int sid) st) sid = None"
    and "session_agents st sid = Some a \<Longrightarrow>
           agent_sessions (disconnect_user (str_int sid) st) a = None"
  using assms
  by (auto simp: disconnect_user_def Let_def isdigit_str_int int_str_str_int split: option.splits)

lemma disconnect_agent_releases:
  "agent_sessions (disconnect_agent e st) e = None"
  "agent_sessions st e = Some sid \<Longrightarrow> session_agents (disconnect_agent e st) sid = None"
  by (auto simp: disconnect_agent_def Let_def split: option.splits)

text \<open>
  C9. \<^verbatim>\<open>disconnect_user\<close> removes the connection entry and the recorder of its key and is
  idempotent; for the key of a session with a positive id it removes the session's entry
  of \<open>session_agents\<close> and the paired agent's entry of \<open>agent_sessions\<close>, and when the
  maps are inverse no agent is left assigned to the session. \<^verbatim>\<open>disconnect_agent\<close> removes
  the agent's connection entry, its entry of \<open>agent_sessions\<close> and the paired session's
  entry of \<open>session_agents\<close>, and is idempotent.
\<close>

theorem disconnect_releases_pair_and_is_idempotent:
  "map_of (active_connections (disconnect_user key st)) key = None
   \<and> recordings (disconnect_user key st) key = None
   \<and> disconnect_user key (disconnect_user key st) = disconnect_user key st
   \<and> (0 < sid \<longrightarrow>
        session_agents (disconnect_user (str_int sid) st) sid = None
        \<and> (\<forall>a. session_agents st sid = Some a \<longrightarrow>
               agent_sessions (disconnect_user (str_int sid) st) a = None)
        \<and> (inverse_maps st \<longrightarrow>
             (\<forall>a. agent_sessions (disconnect_user (str_int sid) st) a \<noteq> Some sid)))
   \<and> map_of (agent_connections (disconnect_agent eid st)) eid = None
   \<and> disconnect_agent eid (disconnect_agent eid st) = disconnect_agent eid st
   \<and> agent_sessions (disconnect_agent eid st) eid = None
   \<and> (\<forall>s. agent_sessions st eid = Some s \<longrightarrow>
          session_agents (disconnect_agent eid st) s = None)
   \<and> (inverse_maps st \<longrightarrow> (\<forall>s. session_agents (disconnect_agent eid st) s \<noteq> Some eid))"
proof -
  have u1: "map_of (active_connections (disconnect_user key st)) key = None"
    by (simp add: map_of_delete_self)
  have u2: "recordings (disconnect_user key st) key = None"
    by (simp add: disconnect_user_def Let_def split: option.splits)
  have u3: "\<forall>a. agent_sessions (disconnect_user (str_int sid) st) a \<noteq> Some sid"
    if "0 < sid" "inverse_maps st"
  proof -
    from that(2) have "inverse_maps (disconnect_user (str_int sid) st)"
      by (rule inverse_maps_disconnect_user)
    with disconnect_user_releases(1) [OF that(1), where st = st] show ?thesis
      by (simp add: inverse_maps_def)
  qed
  have a1: "map_of (agent_connections (disconnect_agent eid st)) eid = None"
    by (simp add: map_of_delete_self)
  have a3: "\<forall>s. session_agents (disconnect_agent eid st) s \<noteq> Some eid" if "inverse_maps st"
  proof -
    from that have "inverse_maps (disconnect_agent eid st)"
      by (rule inverse_maps_disconnect_agent)
    with disconnect_agent_releases(1) [where e = eid and st = st] show ?thesis
      unfolding inverse_maps_def by (metis option.distinct(1))
  qed
  show ?thesis
    using u1 u2 u3 a1 a3 disconnect_user_idem [of key st] disconnect_agent_idem [of eid st]
      disconnect_user_releases [where sid = sid and st = st]
      disconnect_agent_releases [where e = eid and st = st]
    by blast
qed

theorem disconnect_releases_pair_and_is_idempotent_witness:
  "(0::int) < 1 \<and> inverse_maps paired
   \<and> session_agents paired 1 = Some ''EMP1'' \<and> agent_sessions paired ''EMP1'' = Some 1
   \<and> map_of (active_connections (disconnect_user (str_int 1) paired)) (str_int 1) = None
   \<and> session_agents (disconnect_user (str_int 1) paired) 1 = None
   \<and> agent_sessions (disconnect_user (str_int 1) paired) ''EMP1'' = None
   \<and> session_agents (disconnect_agent ''EMP1'' paired) 1 = None
   \<and> agent_sessions (disconnect_agent ''EMP1'' paired) ''EMP1'' = None"
proof -
  have p: "session_agents paired 1 = Some ''EMP1''" "agent_sessions paired ''EMP1'' = Some 1"
    by (simp_all add: paired_def lobby_def assign_agent_to_session_def connect_agent_def
          connect_user_def initial_def)
  have "inverse_maps (initial [asha] [raj])"
    by (simp add: initial_def inverse_maps_def)
  then have "inverse_maps lobby"
    by (simp add: lobby_def)
  then have i: "inverse_maps paired"
    unfolding paired_def by (rule inverse_maps_assign)
  show ?thesis
    using p i disconnect_releases_pair_and_is_idempotent [of "str_int 1" paired 1 "''EMP1''"]
    by simp
qed

subsection \<open>C10: the assignment maps are mutual inverses\<close>

lemma accept_trace_eval:
  "map_option (\<lambda>sys. (agent_sessions (core sys) ''EMP1'', session_agents (core sys) 1))
     (run accept_trace (boot [asha] [raj])) = Some (Some 1, Some ''EMP1'')"
  by code_simp

text \<open>
  C10. In every reachable state \<open>agent_sessions\<close> maps agent \<open>a\<close> to session \<open>s\<close> if
  and only if \<open>session_agents\<close> maps \<open>s\<close> to \<open>a\<close>; and each operation that writes
  the maps (\<^verbatim>\<open>assign_agent_to_session\<close>, \<^verbatim>\<open>disconnect_user\<close>, \<^verbatim>\<open>disconnect_agent\<close>, the
  \<^verbatim>\<open>leave_session\<close> handler) keeps them inverse from any state where they are.
\<close>

theorem assignment_maps_mutually_inverse:
  "(reachable sys \<longrightarrow> inverse_maps (core sys))
   \<and> (inverse_maps st \<longrightarrow>
        inverse_maps (snd (assign_agent_to_session eid sid st))
        \<and> inverse_maps (disconnect_user key st)
        \<and> inverse_maps (disconnect_agent eid st)
        \<and> (case leave_session now eid sid im st of
              None \<Rightarrow> True
            | Some (im', st') \<Rightarrow> inverse_maps st'))"
  using reachable_inverse_maps [of sys] inverse_maps_assign [of st eid sid]
    inverse_maps_disconnect_user [of st key] inverse_maps_disconnect_agent [of st eid]
    inverse_maps_leave_session [of st now eid sid im]
  by (auto split: option.splits)

theorem assignment_maps_mutually_inverse_witness:
  "(case run accept_trace (boot [asha] [raj]) of
      None \<Rightarrow> False
    | Some sys \<Rightarrow>
        reachable sys \<and> agent_sessions (core sys) ''EMP1'' = Some 1
        \<and> session_agents (core sys) 1 = Some ''EMP1'' \<and> inverse_maps (core sys)
        \<and> inverse_maps (disconnect_user ''1'' (core sys))
        \<and> inverse_maps (disconnect_agent ''EMP1'' (core sys)))"
proof -
  from accept_trace_eval obtain sys where
    r: "run accept_trace (boot [asha] [raj]) = Some sys"
    and p: "agent_sessions (core sys) ''EMP1'' = Some 1" "session_agents (core sys) 1 = Some ''EMP1''"
    by auto
  from run_reachable [OF reachable_boot r] have re: "reachable sys" .
  from assignment_maps_mutually_inverse
         [where sys = sys and st = "core sys" and eid = "''EMP1''" and sid = 1 and key = "''1''"
            and now = 5 and im = Map.empty] r p re
  show ?thesis by simp
qed

end
